theory Spec2Isabelle
  imports Main "HOL-Library.AList"
begin

section \<open>The Grafico repository validator (scripts/validate\_grafico.py)\<close>

text \<open>
  The validator reads a directory tree of XML files and two optional JSON documents, and
  collects diagnostics in two lists. The embedding keeps the source's structure: one
  HOL function per method of \<open>Validator\<close>, the object's fields as a record that is passed
  along and returned, what the script reads from disk as a record of observations
  (\<open>env\<close>, the same at every read of one run), and an uncaught Python exception as a
  result of its own that carries the object's state at the raise.
\<close>

subsection \<open>Strings, truthiness and the three regular expressions\<close>

definition newline :: char where
  "newline = CHR 0x0A"

text \<open>\<open>if x\<close> on a value that is \<open>None\<close> or a string: false for \<open>None\<close> and for \<open>""\<close>.\<close>

definition truthy :: "string option \<Rightarrow> bool" where
  "truthy x = (case x of None \<Rightarrow> False | Some s \<Rightarrow> s \<noteq> [])"

text \<open>\<open>x or ""\<close>.\<close>

definition or_empty :: "string option \<Rightarrow> string" where
  "or_empty x = (case x of None \<Rightarrow> [] | Some s \<Rightarrow> s)"

definition endswith :: "string \<Rightarrow> string \<Rightarrow> bool" where
  "endswith s suf = (length suf \<le> length s \<and> drop (length s - length suf) s = suf)"

text \<open>
  \<open>localname\<close>: a tag in Clark notation \<open>{uri}local\<close> loses its \<open>{uri}\<close> part. The parser
  only produces tags that are plain or carry a closing brace, so the second piece of
  \<open>tag.split("}", 1)\<close> exists.
\<close>

definition localname :: "string \<Rightarrow> string" where
  "localname t =
     (if take 1 t = ''{'' then drop 1 (dropWhile (\<lambda>c. c \<noteq> CHR ''}'') t) else t)"

text \<open>\<open>t.split(":", 1)[1]\<close> under the guard \<open>":" in t\<close>.\<close>

definition strip_prefix :: "string \<Rightarrow> string" where
  "strip_prefix t =
     (if CHR '':'' \<in> set t then drop 1 (dropWhile (\<lambda>c. c \<noteq> CHR '':'') t) else t)"

text \<open>\<open>root.tag.split("}")[0].strip("{")\<close>.\<close>

definition tag_namespace :: "string \<Rightarrow> string" where
  "tag_namespace t =
     rev (dropWhile (\<lambda>c. c = CHR ''{'')
       (rev (dropWhile (\<lambda>c. c = CHR ''{'') (takeWhile (\<lambda>c. c \<noteq> CHR ''}'') t))))"

definition ARCHIMATE_NS :: string where
  "ARCHIMATE_NS = ''http://www.archimatetool.com/archimate''"

definition XSI_TYPE :: string where
  "XSI_TYPE = ''{http://www.w3.org/2001/XMLSchema-instance}type''"

definition word_char :: "char \<Rightarrow> bool" where
  "word_char c =
     (c \<in> set ''ABCDEFGHIJKLMNOPQRSTUVWXYZabcdefghijklmnopqrstuvwxyz0123456789_'')"

definition hex_char :: "char \<Rightarrow> bool" where
  "hex_char c = (c \<in> set ''0123456789ABCDEFabcdef'')"

text \<open>
  Python's \<open>$\<close> matches at the end of the string and also just before a newline that
  is the last character; \<open>.\<close> matches every character but a newline.
\<close>

definition chop_newline :: "string \<Rightarrow> string" where
  "chop_newline s = (if s \<noteq> [] \<and> last s = newline then butlast s else s)"

text \<open>\<open>(.+)$\<close> on the rest of a string: the group, if the rest matches.\<close>

definition dot_plus_end :: "string \<Rightarrow> string option" where
  "dot_plus_end r =
     (let b = chop_newline r in if b \<noteq> [] \<and> newline \<notin> set b then Some b else None)"

text \<open>\<open>(.+)\.xml$\<close> on the rest of a string.\<close>

definition dot_plus_xml_end :: "string \<Rightarrow> string option" where
  "dot_plus_xml_end r =
     (let t = chop_newline r; b = take (length t - 4) t
      in if 4 < length t \<and> drop (length t - 4) t = ''.xml'' \<and> newline \<notin> set b
         then Some b else None)"

text \<open>
  \<open>FILENAME_RE = ^([A-Za-z0-9_]+)_(.+)\.xml$\<close>. The first group is greedy: the engine
  tries its longest extent first and gives back one character at a time, so the match
  is the one with the longest first group. \<open>filename_at i\<close> is the attempt with a first
  group of \<open>i\<close> characters.
\<close>

definition filename_at :: "nat \<Rightarrow> string \<Rightarrow> (string \<times> string) option" where
  "filename_at i s =
     (if 0 < i \<and> list_all word_char (take i s) \<and> take 1 (drop i s) = ''_''
      then map_option (\<lambda>fid. (take i s, fid)) (dot_plus_xml_end (drop (Suc i) s))
      else None)"

fun filename_from :: "nat \<Rightarrow> string \<Rightarrow> (string \<times> string) option" where
  "filename_from 0 s = None"
| "filename_from (Suc i) s =
     (case filename_at (Suc i) s of Some r \<Rightarrow> Some r | None \<Rightarrow> filename_from i s)"

definition FILENAME_RE :: "string \<Rightarrow> (string \<times> string) option" where
  "FILENAME_RE s = filename_from (length s) s"

text \<open>\<open>ID_RECOMMENDED = ^id-[0-9A-Fa-f]{32}$\<close>.\<close>

definition ID_RECOMMENDED :: "string \<Rightarrow> bool" where
  "ID_RECOMMENDED s =
     (let t = chop_newline s
      in take 3 t = ''id-'' \<and> length t = 35 \<and> list_all hex_char (drop 3 t))"

text \<open>
  The pattern of \<open>_resolve_href\<close>, \<open>^([^/]+\.xml)#(.+)$\<close>: \<open>href_at i\<close> is the attempt in
  which \<open>[^/]+\<close> takes \<open>i\<close> characters, the longest successful attempt is the match.
\<close>

definition href_at :: "nat \<Rightarrow> string \<Rightarrow> (string \<times> string) option" where
  "href_at i s =
     (if 0 < i \<and> CHR ''/'' \<notin> set (take i s) \<and> take 5 (drop i s) = ''.xml#''
      then map_option (\<lambda>frag. (take (i + 4) s, frag)) (dot_plus_end (drop (i + 5) s))
      else None)"

fun href_from :: "nat \<Rightarrow> string \<Rightarrow> (string \<times> string) option" where
  "href_from 0 s = None"
| "href_from (Suc i) s =
     (case href_at (Suc i) s of Some r \<Rightarrow> Some r | None \<Rightarrow> href_from i s)"

definition HREF_RE :: "string \<Rightarrow> (string \<times> string) option" where
  "HREF_RE s = href_from (length s) s"

subsection \<open>Parsed XML\<close>

text \<open>
  An \<open>ElementTree\<close> element: its tag in Clark notation, its attribute dictionary (the
  parser rejects a repeated attribute, so the keys are distinct) and its children.
\<close>

datatype elem = Elem (tag: string) (attrs: "(string \<times> string) list") (kids: "elem list")

definition attr :: "elem \<Rightarrow> string \<Rightarrow> string option" where
  "attr e k = map_of (attrs e) k"

text \<open>\<open>root.iter()\<close>: the element and all its descendants, in document order.\<close>

fun iter :: "elem \<Rightarrow> elem list" where
  "iter (Elem t a ks) = Elem t a ks # concat (map iter ks)"

text \<open>
  \<open>root.findall(".//*")\<close>: the descendants without the element itself.
  \<open>findall(".//")\<close> is the same list, \<open>ElementPath.iterfind\<close> appends \<open>*\<close> to a path that
  ends in a slash.
\<close>

definition descendants :: "elem \<Rightarrow> elem list" where
  "descendants e = concat (map iter (kids e))"

text \<open>\<open>e.find(name)\<close> for a plain tag name: the first child with exactly that tag.\<close>

definition find_child :: "elem \<Rightarrow> string \<Rightarrow> elem option" where
  "find_child e name = List.find (\<lambda>c. tag c = name) (kids e)"

subsection \<open>What the run reads\<close>

text \<open>
  A path below \<open>model/\<close>: the folders from \<open>model/\<close> down and the file's name, so
  \<open>p.name\<close> is \<open>name\<close> and \<open>p.relative_to(model_dir).parts\<close> is \<open>dirs @ [name]\<close>, never
  empty. \<open>rglob\<close> yields only such paths.
\<close>

datatype mpath = MPath (dirs: "string list") (name: string)

definition top_part :: "mpath \<Rightarrow> string" where
  "top_part p = (case dirs p of [] \<Rightarrow> name p | d # _ \<Rightarrow> d)"

text \<open>One entry of a catalog list: \<open>e.get("class")\<close> and \<open>e.get("defaultFolder")\<close>.\<close>

type_synonym cat_entry = "string option \<times> string option"

record catalog =
  cat_elements :: "cat_entry list"
  cat_relationships :: "cat_entry list"
  cat_diagrams :: "cat_entry list"

text \<open>
  A value as \<open>json.loads\<close> returns it: \<open>None\<close>, a bool, a number, a string, a list, or a
  dictionary as its items in order, the keys distinct. The script never computes with a
  number of \<open>relationships.json\<close>, it only tests it for truth and compares it with
  strings, so a float stands here as the integer of the same truth value.
\<close>

datatype json = JNull | JBool bool | JNum int | JStr string | JArr "json list"
  | JObj "(string \<times> json) list"

text \<open>The truth value Python gives to such a value in \<open>if x\<close>, \<open>x and ...\<close> and \<open>bool(x)\<close>.\<close>

fun json_truthy :: "json \<Rightarrow> bool" where
  "json_truthy JNull = False"
| "json_truthy (JBool b) = b"
| "json_truthy (JNum n) = (n \<noteq> 0)"
| "json_truthy (JStr s) = (s \<noteq> [])"
| "json_truthy (JArr xs) = (xs \<noteq> [])"
| "json_truthy (JObj kvs) = (kvs \<noteq> [])"

text \<open>
  The empty dictionary is what the validator holds when \<open>relationships.json\<close> is absent
  or unreadable.
\<close>

definition no_rules :: json where
  "no_rules = JObj []"

text \<open>
  An optional JSON document on disk: not a file, a file that \<open>json.loads\<close> rejects (with
  the text of the exception), or a file with its content.
\<close>

datatype 'a json_file = Absent | Malformed string | Document 'a

text \<open>
  The observations of one run. \<open>xml p\<close> is what \<open>ET.parse(p).getroot()\<close> gives: the root,
  or the text of the exception raised. The tree does not change during the run, so a
  path gives the same answer every time it is read.
\<close>

record env =
  is_dir :: "string list \<Rightarrow> bool"
  is_file :: "mpath \<Rightarrow> bool"
  xml :: "mpath \<Rightarrow> string + elem"
  rglob :: "mpath list"
  has_cr :: "mpath \<Rightarrow> bool option"
  catalog_json :: "catalog json_file"
  rules_json :: "json json_file"
  archi_bin :: "string option"
  archi_x_ok :: bool
  archi_proc :: "string + (int \<times> bool)"

subsection \<open>Diagnostics and the validator's state\<close>

text \<open>
  One constructor for each message the script formats, with the values the message
  interpolates as arguments; \<open>Exception_text\<close> is \<open>self.fail(str(e))\<close>. Rendering a
  diagnostic as text is left out.
\<close>

datatype diag =
    Missing_required_folder
  | Missing_required_file
  | Missing_top_level_folder string
  | Missing_folder_xml_in string
  | Model_root_must_be_model string
  | Folder_root_must_be_Folder string string
  | Exception_text string
  | Missing_id_on_root mpath
  | Invalid_filename_pattern mpath
  | Root_does_not_match_class string string mpath
  | Root_id_does_not_match string string mpath
  | ID_not_recommended string mpath
  | Class_expected_in_folder string string string mpath
  | CR_characters_found mpath
  | Invalid_href string mpath
  | Failed_to_parse_target string string
  | Href_id_does_not_match string string string mpath
  | Relationship_missing_single_source mpath
  | Relationship_missing_single_target mpath
  | Relationship_side_missing_href string mpath
  | Relationship_side_missing_type string mpath
  | Relationship_not_allowed string string string mpath
  | Connection_source_not_found "string option" mpath
  | Connection_target_not_found "string option" mpath
  | Connection_missing_relationship_href mpath
  | Connection_not_allowed string string string mpath
  | Connection_missing_relationship mpath
  | Object_missing_bounds mpath
  | Object_missing_element_href mpath
  | Archi_not_executable string
  | Archi_returned_code int
  | Archi_reported_errors
  | Failed_to_run_archi string
  | Failed_to_read_rules string

text \<open>
  The fields of \<open>Validator\<close>. The two caches are dictionaries, which keep insertion
  order: association lists written with \<open>AList.update\<close> (a known key keeps its place, a
  new key goes to the end) and read with \<open>map_of\<close>.
\<close>

record validator =
  strict_ids :: bool
  errors :: "diag list"
  warnings :: "diag list"
  class_to_folder :: "(string \<times> string) list"
  element_classes :: "string set"
  relationship_classes :: "string set"
  diagram_classes :: "string set"
  relation_rules :: json
  groups :: json
  basename_to_path :: "(string \<times> mpath) list"
  file_meta :: "(mpath \<times> string \<times> string) list"

datatype exn = IndexError | RuntimeError | TypeError | AttributeError | ValueError string

text \<open>What a method that may raise leaves behind: the object, and the exception if any.\<close>

datatype outcome = Ok validator | Raised exn validator

definition and_then :: "outcome \<Rightarrow> (validator \<Rightarrow> outcome) \<Rightarrow> outcome" where
  "and_then r f = (case r of Ok v \<Rightarrow> f v | Raised e v \<Rightarrow> Raised e v)"

fun for_each :: "('a \<Rightarrow> validator \<Rightarrow> outcome) \<Rightarrow> 'a list \<Rightarrow> validator \<Rightarrow> outcome" where
  "for_each f [] v = Ok v"
| "for_each f (x # xs) v = and_then (f x v) (for_each f xs)"

definition fail :: "diag \<Rightarrow> validator \<Rightarrow> validator" where
  "fail msg v = v\<lparr>errors := errors v @ [msg]\<rparr>"

definition warn :: "diag \<Rightarrow> validator \<Rightarrow> validator" where
  "warn msg v = v\<lparr>warnings := warnings v @ [msg]\<rparr>"

definition parse_xml :: "env \<Rightarrow> mpath \<Rightarrow> string + elem" where
  "parse_xml E p = xml E p"

subsection \<open>Loading the two optional documents\<close>




text \<open>
  What the script does with a value of the rule document. \<open>x.get(k, d)\<close> exists only on
  a dictionary; \<open>for r in x\<close> and \<open>any(... for r in x)\<close> go through the elements of a
  list, the keys of a dictionary and the characters of a string, and raise \<open>TypeError\<close>
  on anything else; \<open>cls in x\<close> is membership in a list, among the keys of a dictionary,
  as a substring of a string, and a \<open>TypeError\<close> on anything else; a list or a
  dictionary cannot be a key of a lookup.
\<close>

definition item :: "(string \<times> json) list \<Rightarrow> string \<Rightarrow> json \<Rightarrow> json" where
  "item kvs k d = (case map_of kvs k of None \<Rightarrow> d | Some y \<Rightarrow> y)"


definition json_iter :: "json \<Rightarrow> exn + json list" where
  "json_iter x =
     (case x of
        JArr xs \<Rightarrow> Inr xs
      | JObj kvs \<Rightarrow> Inr (map (\<lambda>kv. JStr (fst kv)) kvs)
      | JStr s \<Rightarrow> Inr (map (\<lambda>c. JStr [c]) s)
      | _ \<Rightarrow> Inl TypeError)"

definition substring :: "string \<Rightarrow> string \<Rightarrow> bool" where
  "substring a s = list_ex (\<lambda>i. take (length a) (drop i s) = a) [0..<Suc (length s)]"

definition json_contains :: "string \<Rightarrow> json \<Rightarrow> exn + bool" where
  "json_contains cls x =
     (case x of
        JArr xs \<Rightarrow> Inr (JStr cls \<in> set xs)
      | JObj kvs \<Rightarrow> Inr (cls \<in> fst ` set kvs)
      | JStr s \<Rightarrow> Inr (substring cls s)
      | _ \<Rightarrow> Inl TypeError)"

definition hashable :: "json \<Rightarrow> bool" where
  "hashable x = (case x of JArr xs \<Rightarrow> False | JObj kvs \<Rightarrow> False | _ \<Rightarrow> True)"


subsection \<open>Rule evaluation\<close>

text \<open>
  \<open>in_group\<close> and \<open>match_side\<close> are closures over \<open>groups\<close>, here their first argument. A
  key that is not a string is in no dictionary read from JSON.
\<close>

definition in_group :: "json \<Rightarrow> json \<Rightarrow> string \<Rightarrow> exn + bool" where
  "in_group groups_value gname cls =
     (case groups_value of
        JObj kvs \<Rightarrow>
          if \<not> hashable gname then Inl TypeError
          else json_contains cls (case gname of JStr n \<Rightarrow> item kvs n (JArr []) | _ \<Rightarrow> JArr [])
      | _ \<Rightarrow> Inl AttributeError)"

definition match_side :: "json \<Rightarrow> json \<Rightarrow> json \<Rightarrow> string \<Rightarrow> exn + bool" where
  "match_side groups_value rule_key_class rule_key_group actual =
     (if json_truthy rule_key_class \<and> rule_key_class = JStr actual then Inr True
      else if json_truthy rule_key_group
      then (if rule_key_group = JStr ''*'' then Inr True
            else in_group groups_value rule_key_group actual)
      else Inr False)"

text \<open>
  The \<open>for rule in rules\<close> loop: true when it returns, false when it runs out. The
  right side of \<open>and\<close> is evaluated only when the left side is true.
\<close>

fun rules_loop :: "json \<Rightarrow> json list \<Rightarrow> string \<Rightarrow> string \<Rightarrow> string \<Rightarrow> exn + bool" where
  "rules_loop groups_value [] rtype src tgt = Inr False"
| "rules_loop groups_value (rule # rules) rtype src tgt =
     (case rule of
        JObj kvs \<Rightarrow>
          if item kvs ''relationship'' JNull \<noteq> JStr rtype \<and>
             item kvs ''relationship'' JNull \<noteq> JStr ''*''
          then rules_loop groups_value rules rtype src tgt
          else if json_truthy (item kvs ''sameClass'' JNull) \<and> src \<noteq> tgt
          then rules_loop groups_value rules rtype src tgt
          else
            (case match_side groups_value (item kvs ''sourceClass'' JNull)
                    (item kvs ''sourceGroup'' JNull) src of
               Inl e \<Rightarrow> Inl e
             | Inr source_matches \<Rightarrow>
                 if \<not> source_matches then rules_loop groups_value rules rtype src tgt
                 else
                   (case match_side groups_value (item kvs ''targetClass'' JNull)
                           (item kvs ''targetGroup'' JNull) tgt of
                      Inl e \<Rightarrow> Inl e
                    | Inr target_matches \<Rightarrow>
                        if target_matches then Inr True
                        else rules_loop groups_value rules rtype src tgt))
      | _ \<Rightarrow> Inl AttributeError)"

text \<open>\<open>any(r.get("relationship") == rtype for r in rules)\<close> stops at the first hit.\<close>

fun any_for_type :: "json list \<Rightarrow> string \<Rightarrow> exn + bool" where
  "any_for_type [] rtype = Inr False"
| "any_for_type (r # rs) rtype =
     (case r of
        JObj kvs \<Rightarrow>
          if item kvs ''relationship'' JNull = JStr rtype then Inr True
          else any_for_type rs rtype
      | _ \<Rightarrow> Inl AttributeError)"

definition is_relationship_allowed ::
    "validator \<Rightarrow> string \<Rightarrow> string \<Rightarrow> string \<Rightarrow> exn + bool" where
  "is_relationship_allowed v rtype src tgt =
     (if \<not> json_truthy (relation_rules v) then Inr True
      else
        (case relation_rules v of
           JObj kvs \<Rightarrow>
             (case json_iter (item kvs ''rules'' (JArr [])) of
                Inl e \<Rightarrow> Inl e
              | Inr rules \<Rightarrow>
                  (case rules_loop (item kvs ''groups'' (JObj [])) rules rtype src tgt of
                     Inl e \<Rightarrow> Inl e
                   | Inr found \<Rightarrow>
                       if found then Inr True
                       else (case any_for_type rules rtype of
                               Inl e \<Rightarrow> Inl e
                             | Inr any \<Rightarrow> Inr (\<not> any))))
         | _ \<Rightarrow> Inl AttributeError))"

subsection \<open>The structural check and the index\<close>

definition TOP_FOLDERS :: "string list" where
  "TOP_FOLDERS = [''Strategy'', ''Business'', ''Application'', ''Technology'', ''Motivation'',
     ''Implementation_Migration'', ''Other'', ''Relations'', ''Diagrams'']"

definition folder_xml :: "string list \<Rightarrow> mpath" where
  "folder_xml ds = MPath ds ''folder.xml''"

definition structure_folder :: "env \<Rightarrow> string \<Rightarrow> validator \<Rightarrow> validator" where
  "structure_folder E f v =
     (if \<not> is_dir E [f] then fail (Missing_top_level_folder f) v
      else if \<not> is_file E (folder_xml [f]) then fail (Missing_folder_xml_in f) v
      else v)"

definition structure_model_root :: "env \<Rightarrow> validator \<Rightarrow> validator" where
  "structure_model_root E v =
     (if is_file E (folder_xml [])
      then (case parse_xml E (folder_xml []) of
              Inl e \<Rightarrow> fail (Exception_text e) v
            | Inr root \<Rightarrow>
                if localname (tag root) \<noteq> ''model'' \<or> tag_namespace (tag root) \<noteq> ARCHIMATE_NS
                then fail (Model_root_must_be_model (tag root)) v else v)
      else v)"

definition structure_folder_root :: "env \<Rightarrow> string \<Rightarrow> validator \<Rightarrow> validator" where
  "structure_folder_root E f v =
     (if is_file E (folder_xml [f])
      then (case parse_xml E (folder_xml [f]) of
              Inl e \<Rightarrow> fail (Exception_text e) v
            | Inr root \<Rightarrow>
                if localname (tag root) \<noteq> ''Folder''
                then fail (Folder_root_must_be_Folder f (tag root)) v else v)
      else v)"

definition check_structure :: "env \<Rightarrow> validator \<Rightarrow> validator" where
  "check_structure E v =
     (if \<not> is_dir E [] then fail Missing_required_folder v
      else
        let v1 = (if \<not> is_file E (folder_xml []) then fail Missing_required_file v else v);
            v2 = fold (structure_folder E) TOP_FOLDERS v1;
            v3 = structure_model_root E v2
        in fold (structure_folder_root E) TOP_FOLDERS v3)"

definition index_file :: "env \<Rightarrow> mpath \<Rightarrow> validator \<Rightarrow> validator" where
  "index_file E p v =
     (if name p = ''folder.xml'' then v
      else
        let v1 = v\<lparr>basename_to_path := AList.update (name p) p (basename_to_path v)\<rparr>
        in case parse_xml E p of
             Inl e \<Rightarrow> fail (Exception_text e) v1
           | Inr root \<Rightarrow>
               (let rid = or_empty (attr root ''id'');
                    v2 = (if rid = [] then fail (Missing_id_on_root p) v1 else v1)
                in v2\<lparr>file_meta := AList.update p (localname (tag root), rid) (file_meta v2)\<rparr>))"

definition index_files :: "env \<Rightarrow> validator \<Rightarrow> validator" where
  "index_files E v = fold (index_file E) (rglob E) v"

subsection \<open>Filenames and identifiers\<close>

definition check_file_and_id :: "env \<Rightarrow> mpath \<times> string \<times> string \<Rightarrow> validator \<Rightarrow> validator" where
  "check_file_and_id E entry v =
     (case entry of (p, root_local, rid) \<Rightarrow>
        (case FILENAME_RE (name p) of
           None \<Rightarrow> fail (Invalid_filename_pattern p) v
         | Some (cls, fid) \<Rightarrow>
             (let v1 = (if cls \<noteq> ''ArchimateDiagramModel'' \<and> cls \<noteq> ''SketchModel'' \<and>
                           root_local \<noteq> cls
                        then fail (Root_does_not_match_class root_local cls p) v else v);
                  v2 = (if rid \<noteq> fid then fail (Root_id_does_not_match rid fid p) v1 else v1);
                  v3 = (if strict_ids v2 \<and> \<not> ID_RECOMMENDED fid
                        then fail (ID_not_recommended fid p) v2 else v2);
                  v4 = (if class_to_folder v3 \<noteq> []
                        then (let top = top_part p; expected = map_of (class_to_folder v3) cls
                              in if truthy expected \<and> top \<noteq> [] \<and> expected \<noteq> Some top
                                 then fail (Class_expected_in_folder cls (or_empty expected) top p) v3
                                 else v3)
                        else v3)
              in if has_cr E p = Some True then warn (CR_characters_found p) v4 else v4)))"

definition check_files_and_ids :: "env \<Rightarrow> validator \<Rightarrow> validator" where
  "check_files_and_ids E v = fold (check_file_and_id E) (file_meta v) v"

subsection \<open>References\<close>

definition resolve_href :: "validator \<Rightarrow> string \<Rightarrow> mpath option \<times> string option" where
  "resolve_href v href =
     (case HREF_RE href of
        None \<Rightarrow> (None, None)
      | Some (fname, frag) \<Rightarrow> (map_of (basename_to_path v) fname, Some frag))"

text \<open>
  The body of the inner loop of \<open>check_hrefs\<close> for one \<open>href\<close> value found in file \<open>p\<close>.
  A stored \<open>meta\<close> is a pair and therefore true, so \<open>not meta\<close> means that the target
  has no entry.
\<close>

definition check_href :: "env \<Rightarrow> mpath \<Rightarrow> string \<Rightarrow> validator \<Rightarrow> validator" where
  "check_href E p href v =
     (case resolve_href v href of
        (None, _) \<Rightarrow> fail (Invalid_href href p) v
      | (Some tgt, None) \<Rightarrow> fail (Invalid_href href p) v
      | (Some tgt, Some frag) \<Rightarrow>
          (case map_of (file_meta v) tgt of
             Some (troot_local, trid) \<Rightarrow>
               if frag \<noteq> trid then fail (Href_id_does_not_match frag trid href p) v else v
           | None \<Rightarrow>
               (case parse_xml E tgt of
                  Inl e \<Rightarrow> fail (Failed_to_parse_target href e) v
                | Inr troot \<Rightarrow>
                    (let trid = or_empty (attr troot ''id'');
                         v1 = v\<lparr>file_meta :=
                                  AList.update tgt (localname (tag troot), trid) (file_meta v)\<rparr>
                     in if frag \<noteq> trid
                        then fail (Href_id_does_not_match frag trid href p) v1 else v1))))"

definition check_hrefs_elem :: "env \<Rightarrow> mpath \<Rightarrow> elem \<Rightarrow> validator \<Rightarrow> validator" where
  "check_hrefs_elem E p e v =
     (case attr e ''href'' of None \<Rightarrow> v | Some href \<Rightarrow> check_href E p href v)"

definition check_hrefs_file :: "env \<Rightarrow> mpath \<Rightarrow> validator \<Rightarrow> validator" where
  "check_hrefs_file E p v =
     (case parse_xml E p of
        Inl e \<Rightarrow> v
      | Inr root \<Rightarrow> fold (check_hrefs_elem E p) (iter root) v)"

text \<open>
  The outer loop runs over the keys of \<open>file_meta\<close> while the body may add a key. The
  dictionary iterator compares the dictionary's size with the size at the start each
  time the next key is asked for, also when no key is left, and raises \<open>RuntimeError\<close>
  when they differ. The body never removes or moves a key, so while the size is the
  one at the start the keys still to come are those of the start.
\<close>

fun hrefs_loop :: "env \<Rightarrow> nat \<Rightarrow> mpath list \<Rightarrow> validator \<Rightarrow> outcome" where
  "hrefs_loop E n [] v =
     (if length (file_meta v) \<noteq> n then Raised RuntimeError v else Ok v)"
| "hrefs_loop E n (p # ps) v =
     (if length (file_meta v) \<noteq> n then Raised RuntimeError v
      else hrefs_loop E n ps (check_hrefs_file E p v))"

definition check_hrefs :: "env \<Rightarrow> validator \<Rightarrow> outcome" where
  "check_hrefs E v = hrefs_loop E (length (file_meta v)) (map fst (file_meta v)) v"

subsection \<open>Relationships\<close>

text \<open>One round of \<open>for lab, coll in ("source", src_elems), ("target", tgt_elems)\<close>.\<close>

definition relationship_side :: "string \<Rightarrow> elem list \<Rightarrow> mpath \<Rightarrow> validator \<Rightarrow> validator" where
  "relationship_side lab coll p v =
     (case coll of
        [] \<Rightarrow> v
      | e # _ \<Rightarrow>
          (let v1 = (if \<not> truthy (attr e ''href'')
                     then fail (Relationship_side_missing_href lab p) v else v)
           in if \<not> truthy (attr e XSI_TYPE)
              then fail (Relationship_side_missing_type lab p) v1 else v1))"

definition source_elems :: "elem \<Rightarrow> elem list" where
  "source_elems root = filter (\<lambda>e. localname (tag e) = ''source'') (kids root)"

definition target_elems :: "elem \<Rightarrow> elem list" where
  "target_elems root = filter (\<lambda>e. localname (tag e) = ''target'') (kids root)"

text \<open>
  The first half of the loop body of \<open>check_relationships\<close>: the two cardinality checks
  and the loop over the two sides.
\<close>

definition relationship_shape :: "elem \<Rightarrow> mpath \<Rightarrow> validator \<Rightarrow> validator" where
  "relationship_shape root p v =
     (let v1 = (if length (source_elems root) \<noteq> 1
                then fail (Relationship_missing_single_source p) v else v);
          v2 = (if length (target_elems root) \<noteq> 1
                then fail (Relationship_missing_single_target p) v1 else v1);
          v3 = relationship_side ''source'' (source_elems root) p v2
      in relationship_side ''target'' (target_elems root) p v3)"

text \<open>
  The loop body of \<open>check_relationships\<close>. \<open>parse_xml\<close> has no handler here, and neither
  have \<open>src_elems[0]\<close> and \<open>tgt_elems[0]\<close> in the rule branch, which is entered whenever
  a rule set is loaded.
\<close>

definition check_relationship :: "env \<Rightarrow> mpath \<times> string \<times> string \<Rightarrow> validator \<Rightarrow> outcome" where
  "check_relationship E entry v =
     (case entry of (p, root_local, rid) \<Rightarrow>
        if \<not> endswith root_local ''Relationship'' then Ok v
        else
          (case parse_xml E p of
             Inl e \<Rightarrow> Raised (ValueError e) v
           | Inr root \<Rightarrow>
               (let v4 = relationship_shape root p v
                in if json_truthy (relation_rules v4)
                   then (case source_elems root of
                           [] \<Rightarrow> Raised IndexError v4
                         | s # _ \<Rightarrow>
                             (case target_elems root of
                                [] \<Rightarrow> Raised IndexError v4
                              | t # _ \<Rightarrow>
                                  (let src_type = strip_prefix (or_empty (attr s XSI_TYPE));
                                       tgt_type = strip_prefix (or_empty (attr t XSI_TYPE))
                                   in case is_relationship_allowed v4 root_local src_type
                                             tgt_type of
                                        Inl e \<Rightarrow> Raised e v4
                                      | Inr allowed \<Rightarrow>
                                          if \<not> allowed
                                          then Ok (fail (Relationship_not_allowed root_local
                                                           src_type tgt_type p) v4)
                                          else Ok v4)))
                   else Ok v4)))"

definition check_relationships :: "env \<Rightarrow> validator \<Rightarrow> outcome" where
  "check_relationships E v = for_each (check_relationship E) (file_meta v) v"

subsection \<open>Diagrams\<close>

definition DIAGRAM_OBJECT_TAGS :: "string list" where
  "DIAGRAM_OBJECT_TAGS = [''DiagramModelArchimateObject'', ''DiagramModelNote'',
     ''DiagramModelImage'', ''DiagramModelGroup'', ''DiagramModelReference'']"

definition ARCHIMATE_CONNECTION :: string where
  "ARCHIMATE_CONNECTION = ''archimate:DiagramModelArchimateConnection''"

definition ARCHIMATE_OBJECT :: string where
  "ARCHIMATE_OBJECT = ''archimate:DiagramModelArchimateObject''"

text \<open>The set \<open>ids\<close> that \<open>check_diagrams\<close> collects from one diagram root.\<close>

definition diagram_ids :: "elem \<Rightarrow> string set" where
  "diagram_ids root =
     set (map (\<lambda>child. or_empty (attr child ''id''))
       (filter (\<lambda>child. truthy (attr child ''id'') \<and>
                         localname (tag child) \<in> set DIAGRAM_OBJECT_TAGS)
          (descendants root)))"

definition diagram_object_element_type :: "elem \<Rightarrow> string option \<Rightarrow> string option" where
  "diagram_object_element_type root dmo_id =
     (if \<not> truthy dmo_id then None
      else
        (case List.find (\<lambda>dmo. attr dmo ''id'' = dmo_id \<and> attr dmo XSI_TYPE = Some ARCHIMATE_OBJECT)
                (descendants root) of
           None \<Rightarrow> None
         | Some dmo \<Rightarrow>
             (case find_child dmo ''archimateElement'' of
                None \<Rightarrow> None
              | Some el \<Rightarrow> Some (strip_prefix (or_empty (attr el XSI_TYPE))))))"

text \<open>The body of \<open>for ch in conn\<close> on the validator.\<close>

definition connection_child :: "elem \<Rightarrow> elem \<Rightarrow> mpath \<Rightarrow> elem \<Rightarrow> validator \<Rightarrow> outcome" where
  "connection_child root conn p ch v =
     (if localname (tag ch) = ''archimateRelationship''
      then
        (let v1 = (if \<not> truthy (attr ch ''href'')
                   then fail (Connection_missing_relationship_href p) v else v)
         in if json_truthy (relation_rules v1)
            then
              (let rtype = strip_prefix (or_empty (attr ch XSI_TYPE));
                   src_elem_type = diagram_object_element_type root (attr conn ''source'');
                   tgt_elem_type = diagram_object_element_type root (attr conn ''target'')
               in if rtype \<noteq> [] \<and> truthy src_elem_type \<and> truthy tgt_elem_type
                  then (case is_relationship_allowed v1 rtype
                               (or_empty src_elem_type) (or_empty tgt_elem_type) of
                          Inl e \<Rightarrow> Raised e v1
                        | Inr allowed \<Rightarrow>
                            if \<not> allowed
                            then Ok (fail (Connection_not_allowed rtype
                                   (or_empty src_elem_type) (or_empty tgt_elem_type) p) v1)
                            else Ok v1)
                  else Ok v1)
            else Ok v1)
      else Ok v)"

text \<open>
  The loop \<open>for ch in conn\<close> with its flag \<open>found_rel\<close>, set at each child of that name,
  and the statement that follows the loop.
\<close>

fun connection_children ::
    "elem \<Rightarrow> elem \<Rightarrow> mpath \<Rightarrow> elem list \<Rightarrow> bool \<Rightarrow> validator \<Rightarrow> outcome" where
  "connection_children root conn p [] found_rel v =
     Ok (if \<not> found_rel then fail (Connection_missing_relationship p) v else v)"
| "connection_children root conn p (ch # chs) found_rel v =
     and_then (connection_child root conn p ch v)
       (connection_children root conn p chs
          (found_rel \<or> localname (tag ch) = ''archimateRelationship''))"

definition check_connection :: "elem \<Rightarrow> mpath \<Rightarrow> elem \<Rightarrow> validator \<Rightarrow> outcome" where
  "check_connection root p conn v =
     (if attr conn XSI_TYPE = Some ARCHIMATE_CONNECTION
      then
        (let sid = attr conn ''source''; tid = attr conn ''target'';
             v1 = (if \<not> truthy sid \<or> or_empty sid \<notin> diagram_ids root
                   then fail (Connection_source_not_found sid p) v else v);
             v2 = (if \<not> truthy tid \<or> or_empty tid \<notin> diagram_ids root
                   then fail (Connection_target_not_found tid p) v1 else v1)
         in connection_children root conn p (kids conn) False v2)
      else Ok v)"

definition check_object :: "mpath \<Rightarrow> elem \<Rightarrow> validator \<Rightarrow> validator" where
  "check_object p dmo v =
     (if attr dmo XSI_TYPE = Some ARCHIMATE_OBJECT
      then
        (let v1 = (if find_child dmo ''bounds'' = None
                   then fail (Object_missing_bounds p) v else v)
         in case find_child dmo ''archimateElement'' of
              None \<Rightarrow> fail (Object_missing_element_href p) v1
            | Some ael \<Rightarrow>
                if \<not> truthy (attr ael ''href'')
                then fail (Object_missing_element_href p) v1 else v1)
      else v)"

definition check_diagram :: "env \<Rightarrow> mpath \<times> string \<times> string \<Rightarrow> validator \<Rightarrow> outcome" where
  "check_diagram E entry v =
     (case entry of (p, root_local, rid) \<Rightarrow>
        if root_local \<noteq> ''ArchimateDiagramModel'' \<and> root_local \<noteq> ''SketchModel'' then Ok v
        else
          (case parse_xml E p of
             Inl e \<Rightarrow> Raised (ValueError e) v
           | Inr root \<Rightarrow>
               and_then (for_each (check_connection root p) (descendants root) v)
                 (\<lambda>v1. Ok (fold (check_object p) (descendants root) v1))))"

definition check_diagrams :: "env \<Rightarrow> validator \<Rightarrow> outcome" where
  "check_diagrams E v = for_each (check_diagram E) (file_meta v) v"

subsection \<open>The smoke test, the report and the run\<close>

text \<open>
  The external tool is an observation: whether its path is executable, and what running
  it gives, either the text of an exception or the return code together with whether
  the output matches \<open>Exception|Unresolved|Error loading model\<close>.
\<close>

definition optional_archi_load :: "env \<Rightarrow> validator \<Rightarrow> validator" where
  "optional_archi_load E v =
     (case archi_bin E of
        None \<Rightarrow> v
      | Some archi \<Rightarrow>
          if \<not> archi_x_ok E then fail (Archi_not_executable archi) v
          else
            (case archi_proc E of
               Inl e \<Rightarrow> fail (Failed_to_run_archi e) v
             | Inr (code, reported) \<Rightarrow>
                 (let v1 = (if code \<noteq> 0 then fail (Archi_returned_code code) v else v)
                  in if reported then fail Archi_reported_errors v1 else v1)))"

text \<open>\<open>_report\<close> prints the two lists; its value is the status.\<close>

definition report :: "validator \<Rightarrow> int" where
  "report v = (if errors v \<noteq> [] then 1 else 0)"

text \<open>
  How a call of \<open>run\<close> ends: it returns a status, or an exception leaves it. The
  interpreter ends with status 1 on an uncaught exception.
\<close>

datatype run_result = Exit int validator | Uncaught exn validator

definition later_phases :: "env \<Rightarrow> validator \<Rightarrow> outcome" where
  "later_phases E v =
     and_then (and_then (check_hrefs E (check_files_and_ids E (index_files E v)))
                 (check_relationships E))
       (check_diagrams E)"

definition run :: "env \<Rightarrow> validator \<Rightarrow> run_result" where
  "run E v =
     (let v1 = check_structure E v
      in if errors v1 \<noteq> [] then Exit 1 v1
         else
           (case later_phases E v1 of
              Raised e v2 \<Rightarrow> Uncaught e v2
            | Ok v2 \<Rightarrow> (let v3 = optional_archi_load E v2 in Exit (report v3) v3)))"

definition exit_status :: "run_result \<Rightarrow> int" where
  "exit_status r = (case r of Exit rc v \<Rightarrow> rc | Uncaught e v \<Rightarrow> 1)"

definition final_state :: "run_result \<Rightarrow> validator" where
  "final_state r = (case r of Exit rc v \<Rightarrow> v | Uncaught e v \<Rightarrow> v)"

definition uncaught :: "run_result \<Rightarrow> exn option" where
  "uncaught r = (case r of Exit rc v \<Rightarrow> None | Uncaught e v \<Rightarrow> Some e)"







subsection \<open>The rule evaluation algorithm in the specification's words\<close>

text \<open>
  The specification speaks of a rule set: rules with a relationship field, a same-type
  constraint and two matchers, and named groups of classes. One rule, its absent fields
  \<open>None\<close>:
\<close>

record relrule =
  relationship :: "string option"
  sameClass :: bool
  sourceClass :: "string option"
  sourceGroup :: "string option"
  targetClass :: "string option"
  targetGroup :: "string option"

text \<open>
  The rule set: its \<open>rules\<close> and \<open>groups\<close> entries when it has them, and whether the
  document has any other key. It is loaded when the document has a key.
\<close>

record ruledoc =
  rules_key :: "relrule list option"
  groups_key :: "(string \<times> string list) list option"
  other_keys :: bool

definition loaded :: "ruledoc \<Rightarrow> bool" where
  "loaded d = (rules_key d \<noteq> None \<or> groups_key d \<noteq> None \<or> other_keys d)"

text \<open>
  A document of \<open>relationships.json\<close> is such a rule set when it is a dictionary whose
  \<open>rules\<close>, if present, is a list of dictionaries with strings (or nothing) under the
  five string keys, and whose \<open>groups\<close>, if present, is a dictionary of lists of
  strings; a value that is false in Python is the rule set with nothing in it.
\<close>

definition text_view :: "json \<Rightarrow> string option \<Rightarrow> bool" where
  "text_view j s = (case j of JNull \<Rightarrow> s = None | JStr t \<Rightarrow> s = Some t | _ \<Rightarrow> False)"

definition rule_view :: "json \<Rightarrow> relrule \<Rightarrow> bool" where
  "rule_view j r =
     (case j of
        JObj kvs \<Rightarrow>
          text_view (item kvs ''relationship'' JNull) (relationship r) \<and>
          sameClass r = json_truthy (item kvs ''sameClass'' JNull) \<and>
          text_view (item kvs ''sourceClass'' JNull) (sourceClass r) \<and>
          text_view (item kvs ''sourceGroup'' JNull) (sourceGroup r) \<and>
          text_view (item kvs ''targetClass'' JNull) (targetClass r) \<and>
          text_view (item kvs ''targetGroup'' JNull) (targetGroup r)
      | _ \<Rightarrow> False)"

definition group_view :: "string \<times> json \<Rightarrow> string \<times> string list \<Rightarrow> bool" where
  "group_view kv g = (fst kv = fst g \<and> snd kv = JArr (map JStr (snd g)))"

definition views :: "json \<Rightarrow> ruledoc \<Rightarrow> bool" where
  "views j d =
     (if \<not> json_truthy j then \<not> loaded d
      else
        (case j of
           JObj kvs \<Rightarrow>
             (case rules_key d of
                None \<Rightarrow> map_of kvs ''rules'' = None
              | Some rs \<Rightarrow>
                  (case map_of kvs ''rules'' of
                     Some (JArr js) \<Rightarrow> list_all2 rule_view js rs
                   | _ \<Rightarrow> False)) \<and>
             (case groups_key d of
                None \<Rightarrow> map_of kvs ''groups'' = None
              | Some gs \<Rightarrow>
                  (case map_of kvs ''groups'' of
                     Some (JObj gkvs) \<Rightarrow> list_all2 group_view gkvs gs
                   | _ \<Rightarrow> False)) \<and>
             other_keys d = list_ex (\<lambda>kv. fst kv \<noteq> ''rules'' \<and> fst kv \<noteq> ''groups'') kvs
         | _ \<Rightarrow> False))"

text \<open>
  A side of a rule matches by exact class, by membership in the named group, or by the
  group wildcard. A matcher that is missing or the empty string names nothing.
\<close>

definition spec_side_matches ::
    "(string \<times> string list) list \<Rightarrow> string option \<Rightarrow> string option \<Rightarrow> string \<Rightarrow> bool" where
  "spec_side_matches gs cls grp actual =
     ((cls = Some actual \<and> actual \<noteq> []) \<or>
      (case grp of
         None \<Rightarrow> False
       | Some g \<Rightarrow> g \<noteq> [] \<and>
           (g = ''*'' \<or> actual \<in> set (case map_of gs g of None \<Rightarrow> [] | Some ms \<Rightarrow> ms))))"

definition spec_rule_matches ::
    "(string \<times> string list) list \<Rightarrow> relrule \<Rightarrow> string \<Rightarrow> string \<Rightarrow> string \<Rightarrow> bool" where
  "spec_rule_matches gs r rtype src tgt =
     ((relationship r = Some rtype \<or> relationship r = Some ''*'') \<and>
      (sameClass r \<longrightarrow> src = tgt) \<and>
      spec_side_matches gs (sourceClass r) (sourceGroup r) src \<and>
      spec_side_matches gs (targetClass r) (targetGroup r) tgt)"

text \<open>
  The first matching rule in listed order decides: allowed. With no matching rule the
  triple is illegal exactly when some rule is written for its relationship type.
\<close>

definition spec_allowed ::
    "relrule list \<Rightarrow> (string \<times> string list) list \<Rightarrow> string \<Rightarrow> string \<Rightarrow> string \<Rightarrow> bool" where
  "spec_allowed rs gs rtype src tgt =
     (case List.find (\<lambda>r. spec_rule_matches gs r rtype src tgt) rs of
        Some r \<Rightarrow> True
      | None \<Rightarrow> \<not> list_ex (\<lambda>r. relationship r = Some rtype) rs)"

definition rules_of :: "ruledoc \<Rightarrow> relrule list" where
  "rules_of d = (case rules_key d of None \<Rightarrow> [] | Some rs \<Rightarrow> rs)"

definition groups_of :: "ruledoc \<Rightarrow> (string \<times> string list) list" where
  "groups_of d = (case groups_key d of None \<Rightarrow> [] | Some g \<Rightarrow> g)"

subsection \<open>The shape of a reference in the specification's words\<close>

text \<open>
  A single path segment without a directory separator, then \<open>.xml#\<close>, then a fragment
  that is not empty: some position splits the value so.
\<close>

definition href_shape :: "string \<Rightarrow> bool" where
  "href_shape h =
     list_ex (\<lambda>i. 0 < i \<and> CHR ''/'' \<notin> set (take i h) \<and> take 5 (drop i h) = ''.xml#'' \<and>
                   drop (i + 5) h \<noteq> [])
       [0..<length h]"

subsection \<open>What a phase leaves behind\<close>

definition returns :: "outcome \<Rightarrow> bool" where
  "returns r = (case r of Ok v \<Rightarrow> True | Raised e v \<Rightarrow> False)"

definition state_of :: "outcome \<Rightarrow> validator" where
  "state_of r = (case r of Ok v \<Rightarrow> v | Raised e v \<Rightarrow> v)"

text \<open>
  The errors a phase recorded: the list only grows, so they are what stands behind the
  errors the phase started with.
\<close>

definition new_errors :: "validator \<Rightarrow> validator \<Rightarrow> diag list" where
  "new_errors v v' = drop (length (errors v)) (errors v')"



subsection \<open>The diagnostics of each phase as lists\<close>

text \<open>
  For the proofs, the diagnostics each loop body appends are written as a list computed
  from the validator the phase started with; the lemmas of the next section show that
  the phases append exactly these lists.
\<close>

definition add_diags :: "diag list \<Rightarrow> diag list \<Rightarrow> validator \<Rightarrow> validator" where
  "add_diags es ws v = v\<lparr>errors := errors v @ es, warnings := warnings v @ ws\<rparr>"

definition file_id_errors :: "validator \<Rightarrow> mpath \<times> string \<times> string \<Rightarrow> diag list" where
  "file_id_errors v entry =
     (case entry of (p, root_local, rid) \<Rightarrow>
        (case FILENAME_RE (name p) of
           None \<Rightarrow> [Invalid_filename_pattern p]
         | Some (cls, fid) \<Rightarrow>
             (if cls \<noteq> ''ArchimateDiagramModel'' \<and> cls \<noteq> ''SketchModel'' \<and> root_local \<noteq> cls
              then [Root_does_not_match_class root_local cls p] else []) @
             (if rid \<noteq> fid then [Root_id_does_not_match rid fid p] else []) @
             (if strict_ids v \<and> \<not> ID_RECOMMENDED fid then [ID_not_recommended fid p] else []) @
             (if class_to_folder v \<noteq> [] \<and> truthy (map_of (class_to_folder v) cls) \<and>
                 top_part p \<noteq> [] \<and> map_of (class_to_folder v) cls \<noteq> Some (top_part p)
              then [Class_expected_in_folder cls (or_empty (map_of (class_to_folder v) cls))
                      (top_part p) p]
              else [])))"

definition file_id_warnings :: "env \<Rightarrow> mpath \<times> string \<times> string \<Rightarrow> diag list" where
  "file_id_warnings E entry =
     (case entry of (p, root_local, rid) \<Rightarrow>
        (case FILENAME_RE (name p) of
           None \<Rightarrow> []
         | Some m \<Rightarrow> if has_cr E p = Some True then [CR_characters_found p] else []))"

definition fail_if :: "bool \<Rightarrow> diag \<Rightarrow> validator \<Rightarrow> validator" where
  "fail_if c m v = (if c then fail m v else v)"

definition warn_if :: "bool \<Rightarrow> diag \<Rightarrow> validator \<Rightarrow> validator" where
  "warn_if c m v = (if c then warn m v else v)"

definition parses :: "env \<Rightarrow> mpath \<Rightarrow> bool" where
  "parses E p = (case parse_xml E p of Inl e \<Rightarrow> False | Inr root \<Rightarrow> True)"

definition index_consistent :: "env \<Rightarrow> validator \<Rightarrow> bool" where
  "index_consistent E v =
     ((\<forall>p \<in> fst ` set (file_meta v). parses E p) \<and>
      (\<forall>(n, p) \<in> set (basename_to_path v). (p \<in> fst ` set (file_meta v)) = parses E p))"

definition href_errors :: "env \<Rightarrow> validator \<Rightarrow> mpath \<Rightarrow> string \<Rightarrow> diag list" where
  "href_errors E v p href =
     (case resolve_href v href of
        (None, frag) \<Rightarrow> [Invalid_href href p]
      | (Some tgt, None) \<Rightarrow> [Invalid_href href p]
      | (Some tgt, Some frag) \<Rightarrow>
          (case map_of (file_meta v) tgt of
             Some (troot_local, trid) \<Rightarrow>
               if frag \<noteq> trid then [Href_id_does_not_match frag trid href p] else []
           | None \<Rightarrow>
               (case parse_xml E tgt of
                  Inl e \<Rightarrow> [Failed_to_parse_target href e]
                | Inr troot \<Rightarrow> [])))"

definition elem_href_errors :: "env \<Rightarrow> validator \<Rightarrow> mpath \<Rightarrow> elem \<Rightarrow> diag list" where
  "elem_href_errors E v p e =
     (case attr e ''href'' of None \<Rightarrow> [] | Some href \<Rightarrow> href_errors E v p href)"

definition file_href_errors :: "env \<Rightarrow> validator \<Rightarrow> mpath \<Rightarrow> diag list" where
  "file_href_errors E v p =
     (case parse_xml E p of
        Inl e \<Rightarrow> []
      | Inr root \<Rightarrow> concat (map (elem_href_errors E v p) (iter root)))"



definition is_rel_child :: "elem \<Rightarrow> bool" where
  "is_rel_child ch = (localname (tag ch) = ''archimateRelationship'')"

definition child_errors :: "validator \<Rightarrow> elem \<Rightarrow> elem \<Rightarrow> mpath \<Rightarrow> elem \<Rightarrow> diag list" where
  "child_errors v root conn p ch =
     (if is_rel_child ch
      then (if \<not> truthy (attr ch ''href'') then [Connection_missing_relationship_href p] else []) @
           (if json_truthy (relation_rules v) \<and>
               (strip_prefix (or_empty (attr ch XSI_TYPE)) \<noteq> [] \<and>
                truthy (diagram_object_element_type root (attr conn ''source'')) \<and>
                truthy (diagram_object_element_type root (attr conn ''target''))) \<and>
               is_relationship_allowed v (strip_prefix (or_empty (attr ch XSI_TYPE)))
                    (or_empty (diagram_object_element_type root (attr conn ''source'')))
                    (or_empty (diagram_object_element_type root (attr conn ''target''))) =
                 Inr False
            then [Connection_not_allowed (strip_prefix (or_empty (attr ch XSI_TYPE)))
                    (or_empty (diagram_object_element_type root (attr conn ''source'')))
                    (or_empty (diagram_object_element_type root (attr conn ''target''))) p]
            else [])
      else [])"

definition connection_errors :: "validator \<Rightarrow> elem \<Rightarrow> mpath \<Rightarrow> elem \<Rightarrow> diag list" where
  "connection_errors v root p conn =
     (if attr conn XSI_TYPE = Some ARCHIMATE_CONNECTION
      then (if \<not> truthy (attr conn ''source'') \<or>
               or_empty (attr conn ''source'') \<notin> diagram_ids root
            then [Connection_source_not_found (attr conn ''source'') p] else []) @
           (if \<not> truthy (attr conn ''target'') \<or>
               or_empty (attr conn ''target'') \<notin> diagram_ids root
            then [Connection_target_not_found (attr conn ''target'') p] else []) @
           concat (map (child_errors v root conn p) (kids conn)) @
           (if \<not> list_ex is_rel_child (kids conn) then [Connection_missing_relationship p] else [])
      else [])"

definition object_errors :: "mpath \<Rightarrow> elem \<Rightarrow> diag list" where
  "object_errors p dmo =
     (if attr dmo XSI_TYPE = Some ARCHIMATE_OBJECT
      then (if find_child dmo ''bounds'' = None then [Object_missing_bounds p] else []) @
           (if (case find_child dmo ''archimateElement'' of
                  None \<Rightarrow> True | Some ael \<Rightarrow> \<not> truthy (attr ael ''href''))
            then [Object_missing_element_href p] else [])
      else [])"

definition diagram_errors :: "env \<Rightarrow> validator \<Rightarrow> mpath \<times> string \<times> string \<Rightarrow> diag list" where
  "diagram_errors E v entry =
     (case entry of (p, root_local, rid) \<Rightarrow>
        if root_local \<noteq> ''ArchimateDiagramModel'' \<and> root_local \<noteq> ''SketchModel'' then []
        else (case parse_xml E p of
                Inl e \<Rightarrow> []
              | Inr root \<Rightarrow>
                  concat (map (connection_errors v root p) (descendants root)) @
                  concat (map (object_errors p) (descendants root))))"

definition folder_errors :: "env \<Rightarrow> string \<Rightarrow> diag list" where
  "folder_errors E f =
     (if \<not> is_dir E [f] then [Missing_top_level_folder f]
      else if \<not> is_file E (folder_xml [f]) then [Missing_folder_xml_in f]
      else [])"

definition model_root_errors :: "env \<Rightarrow> diag list" where
  "model_root_errors E =
     (if is_file E (folder_xml [])
      then (case parse_xml E (folder_xml []) of
              Inl e \<Rightarrow> [Exception_text e]
            | Inr root \<Rightarrow>
                if localname (tag root) \<noteq> ''model'' \<or> tag_namespace (tag root) \<noteq> ARCHIMATE_NS
                then [Model_root_must_be_model (tag root)] else [])
      else [])"

definition folder_root_errors :: "env \<Rightarrow> string \<Rightarrow> diag list" where
  "folder_root_errors E f =
     (if is_file E (folder_xml [f])
      then (case parse_xml E (folder_xml [f]) of
              Inl e \<Rightarrow> [Exception_text e]
            | Inr root \<Rightarrow>
                if localname (tag root) \<noteq> ''Folder''
                then [Folder_root_must_be_Folder f (tag root)] else [])
      else [])"

definition structure_errors :: "env \<Rightarrow> diag list" where
  "structure_errors E =
     (if \<not> is_dir E [] then [Missing_required_folder]
      else (if \<not> is_file E (folder_xml []) then [Missing_required_file] else []) @
           concat (map (folder_errors E) TOP_FOLDERS) @
           model_root_errors E @
           concat (map (folder_root_errors E) TOP_FOLDERS))"

definition root_is :: "env \<Rightarrow> mpath \<Rightarrow> (string \<Rightarrow> bool) \<Rightarrow> bool" where
  "root_is E p ok = (case parse_xml E p of Inl e \<Rightarrow> False | Inr root \<Rightarrow> ok (tag root))"

definition structure_sound :: "env \<Rightarrow> bool" where
  "structure_sound E =
     (is_dir E [] \<and> is_file E (folder_xml []) \<and>
      root_is E (folder_xml []) (\<lambda>t. localname t = ''model'' \<and> tag_namespace t = ARCHIMATE_NS) \<and>
      list_all (\<lambda>f. is_dir E [f] \<and> is_file E (folder_xml [f]) \<and>
                     root_is E (folder_xml [f]) (\<lambda>t. localname t = ''Folder'')) TOP_FOLDERS)"

subsection \<open>Example repositories\<close>

text \<open>
  A rule document with one rule: an association only between members of the group
  \<open>BusinessElements\<close>.
\<close>

definition association_rules :: json where
  "association_rules =
     JObj [(''rules'',
            JArr [JObj [(''relationship'', JStr ''AssociationRelationship''),
                        (''sourceGroup'', JStr ''BusinessElements''),
                        (''targetGroup'', JStr ''BusinessElements'')]]),
           (''groups'',
            JObj [(''BusinessElements'', JArr [JStr ''BusinessActor'', JStr ''BusinessRole''])])]"

definition association_rule_set :: ruledoc where
  "association_rule_set =
     \<lparr>rules_key = Some [\<lparr>relationship = Some ''AssociationRelationship'', sameClass = False,
                         sourceClass = None, sourceGroup = Some ''BusinessElements'',
                         targetClass = None, targetGroup = Some ''BusinessElements''\<rparr>],
      groups_key = Some [(''BusinessElements'', [''BusinessActor'', ''BusinessRole''])],
      other_keys = False\<rparr>"

text \<open>The rule set with nothing in it, and a document whose \<open>rules\<close> entry is \<open>null\<close>.\<close>

definition empty_rule_set :: ruledoc where
  "empty_rule_set = \<lparr>rules_key = None, groups_key = None, other_keys = False\<rparr>"


text \<open>
  The validator as the constructor leaves it when there is no catalog and the rule
  document is a dictionary.
\<close>

definition validator_with :: "json \<Rightarrow> validator" where
  "validator_with rr =
     \<lparr>strict_ids = False, errors = [], warnings = [], class_to_folder = [],
      element_classes = {}, relationship_classes = {}, diagram_classes = {},
      relation_rules = rr,
      groups = (case rr of JObj kvs \<Rightarrow> item kvs ''groups'' (JObj []) | _ \<Rightarrow> JObj []),
      basename_to_path = [], file_meta = []\<rparr>"

text \<open>
  A repository with the model descriptor, the listed top-level folders, each with its
  folder descriptor, and the listed content files; no file has a carriage return and no
  external tool is given.
\<close>

definition model_descriptor :: elem where
  "model_descriptor = Elem ''{http://www.archimatetool.com/archimate}model'' [] []"

definition folder_descriptor :: elem where
  "folder_descriptor = Elem ''{http://www.archimatetool.com/archimate}Folder'' [] []"

definition repository ::
    "string list \<Rightarrow> (mpath \<times> (string + elem)) list \<Rightarrow> catalog json_file \<Rightarrow> json json_file \<Rightarrow> env" where
  "repository tops files cat rls =
     \<lparr>is_dir = (\<lambda>ds. ds = [] \<or> ds \<in> set (map (\<lambda>f. [f]) tops)),
      is_file = (\<lambda>p. p = folder_xml [] \<or> p \<in> set (map (\<lambda>f. folder_xml [f]) tops) \<or>
                       p \<in> set (map fst files)),
      xml = (\<lambda>p. if p = folder_xml [] then Inr model_descriptor
                  else if p \<in> set (map (\<lambda>f. folder_xml [f]) tops) then Inr folder_descriptor
                  else (case map_of files p of None \<Rightarrow> Inl ''No such file'' | Some r \<Rightarrow> r)),
      rglob = folder_xml [] # map (\<lambda>f. folder_xml [f]) tops @ map fst files,
      has_cr = (\<lambda>p. Some False),
      catalog_json = cat, rules_json = rls,
      archi_bin = None, archi_x_ok = False, archi_proc = Inl []\<rparr>"

text \<open>
  Content files: an element, an association from it to itself with and without its
  source, an element stored under a diagram token, two diagrams of which the second
  connects its own object to an object of the first, a diagram whose connection holds
  two references to its relationship, and a file that does not parse.
\<close>

definition actor_path :: mpath where
  "actor_path = MPath [''Business''] ''BusinessActor_id-a1.xml''"

definition actor_file :: "mpath \<times> (string + elem)" where
  "actor_file = (actor_path,
     Inr (Elem ''{http://www.archimatetool.com/archimate}BusinessActor''
            [(''name'', ''Clerk''), (''id'', ''id-a1'')] []))"

definition relationship_path :: mpath where
  "relationship_path = MPath [''Relations''] ''AssociationRelationship_id-r1.xml''"

definition actor_end :: "string \<Rightarrow> elem" where
  "actor_end side = Elem side [(XSI_TYPE, ''archimate:BusinessActor''),
                               (''href'', ''BusinessActor_id-a1.xml#id-a1'')] []"

definition relationship_file :: "mpath \<times> (string + elem)" where
  "relationship_file = (relationship_path,
     Inr (Elem ''{http://www.archimatetool.com/archimate}AssociationRelationship''
            [(''id'', ''id-r1'')] [actor_end ''source'', actor_end ''target'']))"

definition sourceless_relationship_file :: "mpath \<times> (string + elem)" where
  "sourceless_relationship_file = (relationship_path,
     Inr (Elem ''{http://www.archimatetool.com/archimate}AssociationRelationship''
            [(''id'', ''id-r1'')] [actor_end ''target'']))"



definition diagram_object :: "string \<Rightarrow> elem" where
  "diagram_object i = Elem ''DiagramModelArchimateObject'' [(''id'', i)] []"

definition backing_relationship :: elem where
  "backing_relationship = Elem ''archimateRelationship''
     [(XSI_TYPE, ''archimate:AssociationRelationship''),
      (''href'', ''AssociationRelationship_id-r1.xml#id-r1'')] []"

definition connection :: "string \<Rightarrow> string \<Rightarrow> elem list \<Rightarrow> elem" where
  "connection s t chs = Elem ''sourceConnections''
     [(XSI_TYPE, ARCHIMATE_CONNECTION), (''id'', ''id-c1''), (''source'', s), (''target'', t)] chs"

definition diagram :: "string \<Rightarrow> elem list \<Rightarrow> elem" where
  "diagram i chs = Elem ''{http://www.archimatetool.com/archimate}ArchimateDiagramModel''
                     [(''id'', i)] chs"

definition first_diagram_path :: mpath where
  "first_diagram_path = MPath [''Diagrams''] ''ArchimateDiagramModel_id-d1.xml''"

definition second_diagram_path :: mpath where
  "second_diagram_path = MPath [''Diagrams''] ''ArchimateDiagramModel_id-d2.xml''"

definition first_diagram :: elem where
  "first_diagram = diagram ''id-d1'' [diagram_object ''id-o1'', diagram_object ''id-o2'']"

definition second_diagram :: elem where
  "second_diagram = diagram ''id-d2''
     [Elem ''DiagramModelGroup'' [(''id'', ''id-o3'')]
        [connection ''id-o3'' ''id-o1'' [backing_relationship]]]"

definition doubly_backed_diagram :: elem where
  "doubly_backed_diagram = diagram ''id-d1''
     [diagram_object ''id-o1'', diagram_object ''id-o2'',
      connection ''id-o1'' ''id-o2'' [backing_relationship, backing_relationship]]"

definition referring_path :: mpath where
  "referring_path = MPath [''Business''] ''BusinessRole_id-b1.xml''"

definition broken_path :: mpath where
  "broken_path = MPath [''Business''] ''BusinessObject_id-x1.xml''"

definition broken_file :: "mpath \<times> (string + elem)" where
  "broken_file = (broken_path,
     Inl ''XML parse error in model/Business/BusinessObject_id-x1.xml: no element found'')"

definition malformed_json :: string where
  "malformed_json = ''Expecting value: line 1 column 1 (char 0)''"

text \<open>Whole repositories and a validator that carries a warning from its construction.\<close>

definition warned_validator :: validator where
  "warned_validator = warn (Failed_to_read_rules malformed_json) (validator_with no_rules)"

definition sound_repository :: env where
  "sound_repository = repository TOP_FOLDERS [actor_file, relationship_file] Absent Absent"

definition repository_without_relations :: env where
  "repository_without_relations =
     repository (remove1 ''Relations'' TOP_FOLDERS) [actor_file] Absent Absent"

definition sourceless_repository :: "json json_file \<Rightarrow> env" where
  "sourceless_repository rls =
     repository TOP_FOLDERS [actor_file, sourceless_relationship_file] Absent rls"


definition two_diagram_repository :: env where
  "two_diagram_repository =
     repository TOP_FOLDERS
       [actor_file, relationship_file, (first_diagram_path, Inr first_diagram),
        (second_diagram_path, Inr second_diagram)] Absent Absent"

definition doubly_backed_repository :: env where
  "doubly_backed_repository =
     repository TOP_FOLDERS
       [actor_file, relationship_file, (first_diagram_path, Inr doubly_backed_diagram)]
       Absent Absent"

definition unbacked_repository :: env where
  "unbacked_repository =
     repository TOP_FOLDERS
       [actor_file, relationship_file,
        (first_diagram_path,
         Inr (diagram ''id-d1'' [diagram_object ''id-o1'', diagram_object ''id-o2'',
                                 connection ''id-o1'' ''id-o2'' []]))]
       Absent Absent"

definition reference :: "string \<Rightarrow> elem" where
  "reference h = Elem ''property'' [(''href'', h)] []"

definition reference_list :: "string list" where
  "reference_list =
     [''Business/BusinessActor_id-a1.xml#id-a1'',
      ''BusinessActor_id-zz.xml#id-zz'',
      ''BusinessActor_id-a1.xml#id-wrong'',
      ''BusinessActor_id-a1.xml#id-a1'',
      ''BusinessObject_id-x1.xml#id-x1'']"

definition referring_root :: elem where
  "referring_root =
     Elem ''{http://www.archimatetool.com/archimate}BusinessRole'' [(''id'', ''id-b1'')]
       (map reference reference_list)"

definition references_repository :: env where
  "references_repository =
     repository TOP_FOLDERS [actor_file, broken_file, (referring_path, Inr referring_root)]
       Absent Absent"

definition indexed_references :: validator where
  "indexed_references = index_files references_repository (validator_with no_rules)"




text \<open>
  A sound skeleton with a rule set, a relationship without its source, and a diagram
  whose connection has no reference to its relationship.
\<close>

definition cut_short_repository :: env where
  "cut_short_repository =
     repository TOP_FOLDERS
       [actor_file, sourceless_relationship_file,
        (first_diagram_path,
         Inr (diagram ''id-d1'' [diagram_object ''id-o1'', diagram_object ''id-o2'',
                                 connection ''id-o1'' ''id-o2'' []]))]
       Absent (Document association_rules)"

text \<open>
  A reference to the actor's file whose fragment is the actor's identifier followed by a
  newline (\<open>&#10;\<close> at the end of the attribute value).
\<close>

definition newline_reference :: string where
  "newline_reference = ''BusinessActor_id-a1.xml#id-a1'' @ [newline]"

definition newline_repository :: env where
  "newline_repository =
     repository TOP_FOLDERS
       [actor_file,
        (referring_path,
         Inr (Elem ''{http://www.archimatetool.com/archimate}BusinessRole''
                [(''id'', ''id-b1'')] [reference newline_reference]))]
       Absent Absent"

section \<open>Properties\<close>

subsection \<open>Rule evaluation\<close>

lemma text_view_eq: "text_view j s \<Longrightarrow> (j = JStr t) = (s = Some t)"
  by (auto simp: text_view_def split: json.splits)

lemma text_view_truthy: "text_view j s \<Longrightarrow> json_truthy j = (s \<noteq> None \<and> s \<noteq> Some [])"
  by (auto simp: text_view_def split: json.splits)

lemma text_view_hashable: "text_view j s \<Longrightarrow> hashable j"
  by (auto simp: text_view_def hashable_def split: json.splits)

lemma group_item:
  "list_all2 group_view gkvs gs \<Longrightarrow>
   item gkvs n (JArr []) = JArr (map JStr (case map_of gs n of None \<Rightarrow> [] | Some ms \<Rightarrow> ms))"
  by (induction rule: list_all2_induct) (auto simp: item_def group_view_def)

lemma contains_members: "json_contains cls (JArr (map JStr ms)) = Inr (cls \<in> set ms)"
  by (auto simp: json_contains_def)

lemma match_side_view:
  assumes "text_view c tc" and "text_view g tg" and "list_all2 group_view gkvs gs"
  shows "match_side (JObj gkvs) c g actual = Inr (spec_side_matches gs tc tg actual)"
proof (cases g)
  case (JStr n)
  then have tg: "tg = Some n" using assms(2) by (simp add: text_view_def)
  show ?thesis
    using assms(1) text_view_eq [OF assms(1), of actual] text_view_truthy [OF assms(1)]
    by (auto simp: match_side_def spec_side_matches_def JStr tg in_group_def hashable_def
          group_item [OF assms(3)] contains_members)
next
  case JNull
  then have tg: "tg = None" using assms(2) by (simp add: text_view_def)
  show ?thesis
    using assms(1) text_view_eq [OF assms(1), of actual] text_view_truthy [OF assms(1)]
    by (auto simp: match_side_def spec_side_matches_def JNull tg)
qed (use assms(2) in \<open>simp_all add: text_view_def\<close>)

lemma rules_loop_view:
  "list_all2 rule_view js rs \<Longrightarrow> list_all2 group_view gkvs gs \<Longrightarrow>
   rules_loop (JObj gkvs) js rtype src tgt =
     Inr (List.find (\<lambda>r. spec_rule_matches gs r rtype src tgt) rs \<noteq> None)"
proof (induction rule: list_all2_induct)
  case Nil
  show ?case by simp
next
  case (Cons j js r rs)
  from Cons(1) obtain kvs where j: "j = JObj kvs"
    and rel: "text_view (item kvs ''relationship'' JNull) (relationship r)"
    and same: "sameClass r = json_truthy (item kvs ''sameClass'' JNull)"
    and sc: "text_view (item kvs ''sourceClass'' JNull) (sourceClass r)"
    and sg: "text_view (item kvs ''sourceGroup'' JNull) (sourceGroup r)"
    and tc: "text_view (item kvs ''targetClass'' JNull) (targetClass r)"
    and tg: "text_view (item kvs ''targetGroup'' JNull) (targetGroup r)"
    by (auto simp: rule_view_def split: json.splits)
  show ?case
    using Cons(3) [OF Cons(4)]
    by (simp add: j text_view_eq [OF rel] same [symmetric]
          match_side_view [OF sc sg Cons(4)] match_side_view [OF tc tg Cons(4)]
          spec_rule_matches_def)
qed

lemma any_for_type_view:
  "list_all2 rule_view js rs \<Longrightarrow>
   any_for_type js rtype = Inr (list_ex (\<lambda>r. relationship r = Some rtype) rs)"
proof (induction rule: list_all2_induct)
  case Nil
  show ?case by simp
next
  case (Cons j js r rs)
  from Cons(1) obtain kvs where j: "j = JObj kvs"
    and rel: "text_view (item kvs ''relationship'' JNull) (relationship r)"
    by (auto simp: rule_view_def split: json.splits)
  show ?case using Cons(3) by (simp add: j text_view_eq [OF rel])
qed

lemma views_loaded: "views j d \<Longrightarrow> json_truthy j = loaded d"
proof (cases "json_truthy j")
  case False
  assume "views j d"
  then show ?thesis using False by (simp add: views_def)
next
  case True
  assume v: "views j d"
  then obtain kvs where j: "j = JObj kvs" using True by (auto simp: views_def split: json.splits)
  from True j obtain k x rest where kvs: "kvs = (k, x) # rest" by (cases kvs) auto
  from v True show ?thesis
    by (cases "k = ''rules''"; cases "k = ''groups''")
       (auto simp: views_def j kvs loaded_def split: option.splits json.splits)
qed

lemma allowed_view:
  assumes "views (relation_rules v) d"
  shows "is_relationship_allowed v rtype src tgt =
           Inr (\<not> loaded d \<or> spec_allowed (rules_of d) (groups_of d) rtype src tgt)"
proof (cases "json_truthy (relation_rules v)")
  case False
  then show ?thesis using views_loaded [OF assms] by (simp add: is_relationship_allowed_def)
next
  case True
  with assms obtain kvs where j: "relation_rules v = JObj kvs"
    by (auto simp: views_def split: json.splits)
  from assms True j have
    r: "case rules_key d of None \<Rightarrow> map_of kvs ''rules'' = None
        | Some rs \<Rightarrow> (case map_of kvs ''rules'' of Some (JArr js) \<Rightarrow> list_all2 rule_view js rs
                       | _ \<Rightarrow> False)" and
    g: "case groups_key d of None \<Rightarrow> map_of kvs ''groups'' = None
        | Some gs \<Rightarrow> (case map_of kvs ''groups'' of Some (JObj gkvs) \<Rightarrow> list_all2 group_view gkvs gs
                       | _ \<Rightarrow> False)"
    by (simp_all add: views_def)
  from r obtain js where js: "item kvs ''rules'' (JArr []) = JArr js"
    and jv: "list_all2 rule_view js (rules_of d)"
    by (auto simp: item_def rules_of_def split: option.splits json.splits)
  from g obtain gkvs where gk: "item kvs ''groups'' (JObj []) = JObj gkvs"
    and gv: "list_all2 group_view gkvs (groups_of d)"
    by (auto simp: item_def groups_of_def split: option.splits json.splits)
  show ?thesis
    using True views_loaded [OF assms]
    by (auto simp: is_relationship_allowed_def j js gk json_iter_def
          rules_loop_view [OF jv gv] any_for_type_view [OF jv] spec_allowed_def
          split: option.splits)
qed

lemma allowed_total:
  "views (relation_rules v) d \<Longrightarrow> \<exists>b. is_relationship_allowed v rtype src tgt = Inr b"
  by (simp add: allowed_view)

text \<open>
  Claim C3. With a rule set loaded, \<open>_is_relationship_allowed\<close> computes the
  specification's algorithm: the rules are tried in listed order, the first rule whose
  relationship field is the triple's type or the wildcard, whose same-type constraint
  holds when it is required and whose two sides match makes the triple allowed; with no
  matching rule the triple is illegal when a rule exists for its relationship type and
  legal when none exists. The rule set is the document the validator holds, read as
  rules and groups.
\<close>

theorem rule_evaluation_refines_spec:
  "views (relation_rules v) d \<Longrightarrow> loaded d \<Longrightarrow>
   is_relationship_allowed v rtype src tgt =
     Inr (spec_allowed (rules_of d) (groups_of d) rtype src tgt)"
  by (simp add: allowed_view)

theorem rule_evaluation_refines_spec_witness:
  "views (relation_rules (validator_with association_rules)) association_rule_set \<and>
   loaded association_rule_set \<and>
   is_relationship_allowed (validator_with association_rules)
       ''AssociationRelationship'' ''ApplicationComponent'' ''BusinessActor'' = Inr False \<and>
   is_relationship_allowed (validator_with association_rules)
       ''AssociationRelationship'' ''BusinessRole'' ''BusinessActor'' = Inr True \<and>
   is_relationship_allowed (validator_with association_rules)
       ''ServingRelationship'' ''ApplicationComponent'' ''BusinessActor'' = Inr True"
proof -
  have w: "views (relation_rules (validator_with association_rules)) association_rule_set"
    by (simp add: validator_with_def association_rules_def association_rule_set_def views_def
          rule_view_def group_view_def text_view_def item_def)
  have l: "loaded association_rule_set"
    by (simp add: association_rule_set_def loaded_def)
  show ?thesis
    using w l rule_evaluation_refines_spec [OF w l]
    by (simp add: spec_allowed_def spec_rule_matches_def spec_side_matches_def
          rules_of_def groups_of_def association_rule_set_def)
qed

subsection \<open>The phases append their diagnostics\<close>

lemma add_diags_fields [simp]:
  "errors (add_diags es ws v) = errors v @ es"
  "warnings (add_diags es ws v) = warnings v @ ws"
  "strict_ids (add_diags es ws v) = strict_ids v"
  "class_to_folder (add_diags es ws v) = class_to_folder v"
  "relation_rules (add_diags es ws v) = relation_rules v"
  "groups (add_diags es ws v) = groups v"
  "basename_to_path (add_diags es ws v) = basename_to_path v"
  "file_meta (add_diags es ws v) = file_meta v"
  by (simp_all add: add_diags_def)

lemma add_diags_nil [simp]: "add_diags [] [] v = v"
  by (simp add: add_diags_def)

lemma add_diags_add_diags [simp]:
  "add_diags es ws (add_diags es' ws' v) = add_diags (es' @ es) (ws' @ ws) v"
  by (simp add: add_diags_def)

lemma fail_add_diags [simp]: "fail m (add_diags es ws v) = add_diags (es @ [m]) ws v"
  by (simp add: fail_def add_diags_def)

lemma warn_add_diags [simp]: "warn m (add_diags es ws v) = add_diags es (ws @ [m]) v"
  by (simp add: warn_def add_diags_def)

lemma fold_add_diags:
  assumes "\<And>x es ws. x \<in> set xs \<Longrightarrow> f x (add_diags es ws v) = add_diags (es @ g x) (ws @ h x) v"
  shows "fold f xs (add_diags es ws v) =
         add_diags (es @ concat (map g xs)) (ws @ concat (map h xs)) v"
  using assms by (induction xs arbitrary: es ws) simp_all

lemma fold_add_errors:
  assumes "\<And>x es. x \<in> set xs \<Longrightarrow> f x (add_diags es ws v) = add_diags (es @ g x) ws v"
  shows "fold f xs (add_diags es ws v) = add_diags (es @ concat (map g xs)) ws v"
  using assms by (induction xs arbitrary: es) simp_all

lemma is_relationship_allowed_add_diags [simp]:
  "is_relationship_allowed (add_diags es ws v) = is_relationship_allowed v"
  by (intro ext) (simp add: is_relationship_allowed_def)

lemma fail_if_add:
  "fail_if c m (add_diags es ws v) = add_diags (es @ (if c then [m] else [])) ws v"
  by (simp add: fail_if_def)

lemma warn_if_add:
  "warn_if c m (add_diags es ws v) = add_diags es (ws @ (if c then [m] else [])) v"
  by (simp add: warn_if_def)

lemma if_fail: "(if c then fail m v else v) = fail_if c m v"
  by (simp add: fail_if_def)

lemma if_warn: "(if c then warn m v else v) = warn_if c m v"
  by (simp add: warn_if_def)

lemma if_if_fail: "(if c then (if d then fail m v else v) else v) = fail_if (c \<and> d) m v"
  by (simp add: fail_if_def)

lemmas fail_ifs = if_fail if_warn if_if_fail fail_if_add warn_if_add

lemma check_file_and_id_add:
  "check_file_and_id E entry (add_diags es ws v) =
     add_diags (es @ file_id_errors v entry) (ws @ file_id_warnings E entry) v"
proof (cases entry)
  case (fields p root_local rid)
  show ?thesis
  proof (cases "FILENAME_RE (name p)")
    case None
    then show ?thesis
      by (simp add: fields check_file_and_id_def file_id_errors_def file_id_warnings_def)
  next
    case (Some m)
    obtain cls fid where m: "m = (cls, fid)" by (cases m)
    show ?thesis
      unfolding check_file_and_id_def file_id_errors_def file_id_warnings_def Let_def
      by (simp add: fields Some m fail_ifs split del: if_split)
  qed
qed

lemma check_files_and_ids_eq:
  "check_files_and_ids E v =
     add_diags (concat (map (file_id_errors v) (file_meta v)))
               (concat (map (file_id_warnings E) (file_meta v))) v"
proof -
  have "fold (check_file_and_id E) (file_meta v) (add_diags [] [] v) =
        add_diags ([] @ concat (map (file_id_errors v) (file_meta v)))
                  ([] @ concat (map (file_id_warnings E) (file_meta v))) v"
    by (rule fold_add_diags) (simp add: check_file_and_id_add)
  then show ?thesis by (simp add: check_files_and_ids_def)
qed

lemma alist_update_entry:
  "(k', x') \<in> set (AList.update k x al) \<Longrightarrow> (k', x') = (k, x) \<or> (k', x') \<in> set al"
  by (induction al) (auto split: if_splits)

lemma index_consistent_add_diags [simp]:
  "index_consistent E (add_diags es ws v) = index_consistent E v"
  by (simp add: index_consistent_def)

lemma index_file_consistent:
  assumes "index_consistent E v"
  shows "index_consistent E (index_file E p v)"
proof (cases "name p = ''folder.xml''")
  case True
  then show ?thesis using assms by (simp add: index_file_def)
next
  case False
  show ?thesis
  proof (cases "parse_xml E p")
    case (Inl e)
    then have np: "\<not> parses E p" by (simp add: parses_def)
    with assms have "p \<notin> fst ` set (file_meta v)"
      by (auto simp: index_consistent_def)
    with assms np show ?thesis
      using False Inl
      by (auto simp: index_file_def index_consistent_def fail_def Let_def
            dest!: alist_update_entry)
  next
    case (Inr root)
    then have yp: "parses E p" by (simp add: parses_def)
    with assms show ?thesis
      using False Inr
      by (auto simp: index_file_def index_consistent_def fail_def Let_def dom_update
            dest!: alist_update_entry)
  qed
qed

lemma fold_index_file_consistent:
  "index_consistent E v \<Longrightarrow> index_consistent E (fold (index_file E) ps v)"
  by (induction ps arbitrary: v) (simp_all add: index_file_consistent)

lemma index_files_consistent:
  "basename_to_path v = [] \<Longrightarrow> file_meta v = [] \<Longrightarrow> index_consistent E (index_files E v)"
  unfolding index_files_def
  by (rule fold_index_file_consistent) (simp add: index_consistent_def)

lemma resolve_href_add_diags [simp]:
  "resolve_href (add_diags es ws v) href = resolve_href v href"
  by (simp add: resolve_href_def split: option.splits)

lemma resolved_target_listed:
  "resolve_href v href = (Some tgt, frag) \<Longrightarrow> \<exists>n. (n, tgt) \<in> set (basename_to_path v)"
  by (auto simp: resolve_href_def split: option.splits dest: map_of_SomeD)

lemma unindexed_target_fails:
  assumes "index_consistent E v" and "resolve_href v href = (Some tgt, frag)"
    and "map_of (file_meta v) tgt = None"
  shows "\<exists>e. parse_xml E tgt = Inl e"
proof -
  from assms(2) obtain n where "(n, tgt) \<in> set (basename_to_path v)"
    using resolved_target_listed by blast
  moreover from assms(3) have "tgt \<notin> fst ` set (file_meta v)"
    by (simp add: map_of_eq_None_iff)
  ultimately have "\<not> parses E tgt"
    using assms(1) by (auto simp: index_consistent_def)
  then show ?thesis by (cases "parse_xml E tgt") (simp_all add: parses_def)
qed

lemma check_href_add:
  assumes "index_consistent E v"
  shows "check_href E p href (add_diags es ws v) = add_diags (es @ href_errors E v p href) ws v"
proof (cases "resolve_href v href")
  case (Pair tgt frag)
  show ?thesis
  proof (cases tgt)
    case None
    then show ?thesis using Pair by (simp add: check_href_def href_errors_def)
  next
    case (Some t)
    show ?thesis
    proof (cases frag)
      case None
      then show ?thesis using Pair Some by (simp add: check_href_def href_errors_def)
    next
      case (Some f)
      note fr = Some
      show ?thesis
      proof (cases "map_of (file_meta v) t")
        case None
        with assms Pair \<open>tgt = Some t\<close> obtain e where "parse_xml E t = Inl e"
          using unindexed_target_fails by blast
        then show ?thesis
          using Pair \<open>tgt = Some t\<close> fr None by (simp add: check_href_def href_errors_def)
      next
        case (Some m)
        then show ?thesis
          using Pair \<open>tgt = Some t\<close> fr
          by (cases m) (simp add: check_href_def href_errors_def)
      qed
    qed
  qed
qed

lemma check_hrefs_elem_add:
  "index_consistent E v \<Longrightarrow>
   check_hrefs_elem E p e (add_diags es ws v) = add_diags (es @ elem_href_errors E v p e) ws v"
  by (cases "attr e ''href''")
     (simp_all add: check_hrefs_elem_def elem_href_errors_def check_href_add)

lemma check_hrefs_file_add:
  assumes "index_consistent E v"
  shows "check_hrefs_file E p (add_diags es ws v) = add_diags (es @ file_href_errors E v p) ws v"
proof (cases "parse_xml E p")
  case (Inl e)
  then show ?thesis by (simp add: check_hrefs_file_def file_href_errors_def)
next
  case (Inr root)
  have "fold (check_hrefs_elem E p) (iter root) (add_diags es ws v) =
        add_diags (es @ concat (map (elem_href_errors E v p) (iter root))) ws v"
    by (rule fold_add_errors) (simp add: check_hrefs_elem_add assms)
  then show ?thesis using Inr by (simp add: check_hrefs_file_def file_href_errors_def)
qed

lemma hrefs_loop_add:
  assumes "index_consistent E v"
  shows "hrefs_loop E (length (file_meta v)) ps (add_diags es ws v) =
         Ok (add_diags (es @ concat (map (file_href_errors E v) ps)) ws v)"
  by (induction ps arbitrary: es) (simp_all add: check_hrefs_file_add assms)

lemma check_hrefs_eq:
  assumes "index_consistent E v"
  shows "check_hrefs E v =
         Ok (add_diags (concat (map (file_href_errors E v) (map fst (file_meta v)))) [] v)"
  using hrefs_loop_add [OF assms, of "map fst (file_meta v)" "[]" "[]"]
  by (simp add: check_hrefs_def)






lemma if_if_if_fail:
  "(if a then (if b then (if c then fail m v else v) else v) else v) = fail_if (a \<and> b \<and> c) m v"
  by (simp add: fail_if_def)

lemma connection_child_add:
  assumes "views (relation_rules v) d"
  shows "connection_child root conn p ch (add_diags es ws v) =
         Ok (add_diags (es @ child_errors v root conn p ch) ws v)"
proof (cases "is_rel_child ch")
  case False
  then show ?thesis
    by (simp add: connection_child_def child_errors_def is_rel_child_def)
next
  case True
  then have t: "localname (tag ch) = ''archimateRelationship''"
    by (simp add: is_rel_child_def)
  obtain ok where ok: "is_relationship_allowed v (strip_prefix (or_empty (attr ch XSI_TYPE)))
      (or_empty (diagram_object_element_type root (attr conn ''source'')))
      (or_empty (diagram_object_element_type root (attr conn ''target''))) = Inr ok"
    using allowed_total [OF assms] by blast
  show ?thesis
    unfolding connection_child_def child_errors_def Let_def
    by (simp add: True t ok fail_if_def)
qed

lemma connection_children_add:
  assumes "views (relation_rules v) d"
  shows "connection_children root conn p chs b (add_diags es ws v) =
         Ok (add_diags (es @ concat (map (child_errors v root conn p) chs) @
               (if \<not> (b \<or> list_ex is_rel_child chs)
                then [Connection_missing_relationship p] else [])) ws v)"
  by (induction chs arbitrary: b es)
     (simp_all add: connection_child_add [OF assms] and_then_def is_rel_child_def)

lemma check_connection_add:
  assumes "views (relation_rules v) d"
  shows "check_connection root p conn (add_diags es ws v) =
         Ok (add_diags (es @ connection_errors v root p conn) ws v)"
proof (cases "attr conn XSI_TYPE = Some ARCHIMATE_CONNECTION")
  case False
  then show ?thesis by (simp add: check_connection_def connection_errors_def)
next
  case True
  show ?thesis
    unfolding check_connection_def connection_errors_def Let_def
    by (simp add: True fail_ifs connection_children_add [OF assms] split del: if_split)
qed

lemma check_object_add:
  "check_object p dmo (add_diags es ws v) = add_diags (es @ object_errors p dmo) ws v"
proof (cases "attr dmo XSI_TYPE = Some ARCHIMATE_OBJECT")
  case False
  then show ?thesis by (simp add: check_object_def object_errors_def)
next
  case True
  show ?thesis
  proof (cases "find_child dmo ''archimateElement''")
    case None
    show ?thesis
      unfolding check_object_def object_errors_def Let_def
      by (simp add: True None fail_ifs split del: if_split)
  next
    case (Some ael)
    show ?thesis
      unfolding check_object_def object_errors_def Let_def
      by (simp add: True Some fail_ifs split del: if_split)
  qed
qed

lemma for_each_add:
  assumes "\<And>x es. x \<in> set xs \<Longrightarrow> f x (add_diags es ws v) = Ok (add_diags (es @ g x) ws v)"
  shows "for_each f xs (add_diags es ws v) = Ok (add_diags (es @ concat (map g xs)) ws v)"
  using assms by (induction xs arbitrary: es) (simp_all add: and_then_def)

lemma check_diagram_add:
  assumes "parses E (fst entry)" and "views (relation_rules v) d"
  shows "check_diagram E entry (add_diags es ws v) =
         Ok (add_diags (es @ diagram_errors E v entry) ws v)"
proof (cases entry)
  case (fields p root_local rid)
  show ?thesis
  proof (cases "root_local \<noteq> ''ArchimateDiagramModel'' \<and> root_local \<noteq> ''SketchModel''")
    case True
    then show ?thesis by (simp add: fields check_diagram_def diagram_errors_def)
  next
    case False
    from assms fields obtain root where root: "parse_xml E p = Inr root"
      by (cases "parse_xml E p") (simp_all add: parses_def)
    have c: "for_each (check_connection root p) (descendants root) (add_diags es ws v) =
             Ok (add_diags (es @ concat (map (connection_errors v root p) (descendants root)))
                   ws v)"
      by (rule for_each_add) (simp add: check_connection_add [OF assms(2)])
    have "fold (check_object p) (descendants root)
            (add_diags (es @ concat (map (connection_errors v root p) (descendants root))) ws v) =
          add_diags ((es @ concat (map (connection_errors v root p) (descendants root))) @
                     concat (map (object_errors p) (descendants root))) ws v"
      by (rule fold_add_errors) (simp add: check_object_add)
    with c False root show ?thesis
      by (auto simp: fields check_diagram_def diagram_errors_def and_then_def)
  qed
qed

lemma check_diagrams_add:
  assumes "index_consistent E v" and "views (relation_rules v) d"
  shows "check_diagrams E (add_diags es ws v) =
         Ok (add_diags (es @ concat (map (diagram_errors E v) (file_meta v))) ws v)"
proof -
  have "\<And>x. x \<in> set (file_meta v) \<Longrightarrow> parses E (fst x)"
    using assms by (auto simp: index_consistent_def)
  then have "for_each (check_diagram E) (file_meta v) (add_diags es ws v) =
        Ok (add_diags (es @ concat (map (diagram_errors E v) (file_meta v))) ws v)"
    by (intro for_each_add) (simp add: check_diagram_add [OF _ assms(2)])
  then show ?thesis by (simp add: check_diagrams_def)
qed


lemma structure_folder_add:
  "structure_folder E f (add_diags es ws v) = add_diags (es @ folder_errors E f) ws v"
  by (simp add: structure_folder_def folder_errors_def)

lemma structure_model_root_add:
  "structure_model_root E (add_diags es ws v) = add_diags (es @ model_root_errors E) ws v"
  by (simp add: structure_model_root_def model_root_errors_def split: sum.splits)

lemma structure_folder_root_add:
  "structure_folder_root E f (add_diags es ws v) = add_diags (es @ folder_root_errors E f) ws v"
  by (simp add: structure_folder_root_def folder_root_errors_def split: sum.splits)

lemma check_structure_add:
  "check_structure E (add_diags es ws v) = add_diags (es @ structure_errors E) ws v"
proof (cases "is_dir E []")
  case False
  then show ?thesis by (simp add: check_structure_def structure_errors_def)
next
  case True
  have s2: "\<And>es'. fold (structure_folder E) TOP_FOLDERS (add_diags es' ws v) =
            add_diags (es' @ concat (map (folder_errors E) TOP_FOLDERS)) ws v"
    by (rule fold_add_errors) (simp add: structure_folder_add)
  have s4: "\<And>es'. fold (structure_folder_root E) TOP_FOLDERS (add_diags es' ws v) =
            add_diags (es' @ concat (map (folder_root_errors E) TOP_FOLDERS)) ws v"
    by (rule fold_add_errors) (simp add: structure_folder_root_add)
  show ?thesis
    unfolding check_structure_def Let_def
    by (simp add: True s2 s4 structure_model_root_add structure_errors_def)
qed

lemma structure_errors_nil: "(structure_errors E = []) = structure_sound E"
proof -
  have m: "(model_root_errors E = []) =
           (is_file E (folder_xml []) \<longrightarrow>
            root_is E (folder_xml []) (\<lambda>t. localname t = ''model'' \<and> tag_namespace t = ARCHIMATE_NS))"
    by (auto simp: model_root_errors_def root_is_def split: sum.splits)
  have f: "\<And>f. (folder_errors E f = [] \<and> folder_root_errors E f = []) =
           (is_dir E [f] \<and> is_file E (folder_xml [f]) \<and>
            root_is E (folder_xml [f]) (\<lambda>t. localname t = ''Folder''))"
    by (auto simp: folder_errors_def folder_root_errors_def root_is_def split: sum.splits)
  have "(structure_errors E = []) =
        (is_dir E [] \<and> is_file E (folder_xml []) \<and> model_root_errors E = [] \<and>
         (\<forall>f \<in> set TOP_FOLDERS. folder_errors E f = [] \<and> folder_root_errors E f = []))"
    by (auto simp: structure_errors_def)
  also have "\<dots> = structure_sound E"
    unfolding f structure_sound_def list_all_iff using m by auto
  finally show ?thesis .
qed

lemma check_structure_eq: "check_structure E v = add_diags (structure_errors E) [] v"
  using check_structure_add [of E "[]" "[]" v] by simp

lemma index_file_rules: "relation_rules (index_file E p v) = relation_rules v"
  by (simp add: index_file_def Let_def fail_def split: sum.splits)

lemma index_files_rules: "relation_rules (index_files E v) = relation_rules v"
proof -
  have "relation_rules (fold (index_file E) ps v) = relation_rules v" for ps
    by (induction ps arbitrary: v) (simp_all add: index_file_rules)
  then show ?thesis by (simp add: index_files_def)
qed


lemma optional_archi_load_errors:
  "\<exists>es. optional_archi_load E v = add_diags es [] v"
proof -
  have "\<And>m. fail m v = add_diags [m] [] v" using fail_add_diags [of _ "[]" "[]" v] by simp
  moreover have "\<And>m n. fail m (fail n v) = add_diags [n, m] [] v"
    using fail_add_diags [of _ "[]" "[]" v] fail_add_diags by simp
  moreover have "v = add_diags [] [] v" by simp
  ultimately show ?thesis
    unfolding optional_archi_load_def Let_def
    by (auto split: option.splits sum.splits prod.splits simp del: add_diags_nil)
qed

subsection \<open>The exit status\<close>

lemma check_structure_rules: "relation_rules (check_structure E v) = relation_rules v"
  by (simp add: check_structure_eq)







subsection \<open>The structural gate\<close>

text \<open>
  When the structural check records an error (the model directory, a folder descriptor
  or a top-level folder is missing, or a descriptor does not parse or has the wrong
  root) the run ends there with status 1, in the state the structural check left:
  nothing is indexed and no later check has run. When the skeleton is sound the
  structural check records nothing and the run goes on to the later phases, up to the
  first of them that raises.
\<close>

theorem structural_gate:
  assumes "errors v = []"
  shows "(\<not> structure_sound E \<longrightarrow>
            errors (check_structure E v) \<noteq> [] \<and>
            run E v = Exit 1 (check_structure E v) \<and>
            basename_to_path (check_structure E v) = basename_to_path v \<and>
            file_meta (check_structure E v) = file_meta v) \<and>
         (structure_sound E \<longrightarrow>
            check_structure E v = v \<and>
            run E v =
              (case and_then (and_then (check_hrefs E (check_files_and_ids E (index_files E v)))
                                (check_relationships E))
                      (check_diagrams E) of
                 Ok v2 \<Rightarrow> Exit (report (optional_archi_load E v2)) (optional_archi_load E v2)
               | Raised e v2 \<Rightarrow> Uncaught e v2))"
proof (intro conjI impI)
  assume ns: "\<not> structure_sound E"
  then have ne: "structure_errors E \<noteq> []" by (simp add: structure_errors_nil)
  then show "errors (check_structure E v) \<noteq> []" by (simp add: check_structure_eq)
  then show "run E v = Exit 1 (check_structure E v)" by (simp add: run_def Let_def)
  show "basename_to_path (check_structure E v) = basename_to_path v"
    by (simp add: check_structure_eq)
  show "file_meta (check_structure E v) = file_meta v"
    by (simp add: check_structure_eq)
next
  assume s: "structure_sound E"
  then have "structure_errors E = []" by (simp add: structure_errors_nil)
  then show same: "check_structure E v = v" by (simp add: check_structure_eq)
  with assms show "run E v =
      (case and_then (and_then (check_hrefs E (check_files_and_ids E (index_files E v)))
                        (check_relationships E))
              (check_diagrams E) of
         Ok v2 \<Rightarrow> Exit (report (optional_archi_load E v2)) (optional_archi_load E v2)
       | Raised e v2 \<Rightarrow> Uncaught e v2)"
    by (simp add: run_def Let_def later_phases_def split: outcome.splits)
qed

theorem structural_gate_witness:
  "errors (validator_with no_rules) = [] \<and>
   \<not> structure_sound repository_without_relations \<and>
   run repository_without_relations (validator_with no_rules) =
     Exit 1 (fail (Missing_top_level_folder ''Relations'') (validator_with no_rules)) \<and>
   structure_sound sound_repository \<and>
   exit_status (run sound_repository (validator_with no_rules)) = 0 \<and>
   map fst (file_meta (final_state (run sound_repository (validator_with no_rules)))) =
     [actor_path, relationship_path]"
proof -
  have e: "errors (validator_with no_rules) = []" by (simp add: validator_with_def)
  have n: "\<not> structure_sound repository_without_relations" by code_simp
  have s: "structure_sound sound_repository" by code_simp
  have c: "check_structure repository_without_relations (validator_with no_rules) =
           fail (Missing_top_level_folder ''Relations'') (validator_with no_rules)"
    by code_simp
  from structural_gate [OF e, of repository_without_relations] n c
  have r: "run repository_without_relations (validator_with no_rules) =
           Exit 1 (fail (Missing_top_level_folder ''Relations'') (validator_with no_rules))"
    by simp
  have l: "and_then (and_then (check_hrefs sound_repository
             (check_files_and_ids sound_repository
                (index_files sound_repository (validator_with no_rules))))
             (check_relationships sound_repository)) (check_diagrams sound_repository) =
           Ok (index_files sound_repository (validator_with no_rules))"
    by code_simp
  have o: "optional_archi_load sound_repository
             (index_files sound_repository (validator_with no_rules)) =
           index_files sound_repository (validator_with no_rules)"
    by code_simp
  have i: "errors (index_files sound_repository (validator_with no_rules)) = []"
          "map fst (file_meta (index_files sound_repository (validator_with no_rules))) =
             [actor_path, relationship_path]"
    by code_simp+
  from structural_gate [OF e, of sound_repository] s l o
  have "run sound_repository (validator_with no_rules) =
          Exit (report (index_files sound_repository (validator_with no_rules)))
               (index_files sound_repository (validator_with no_rules))"
    by simp
  with i have "exit_status (run sound_repository (validator_with no_rules)) = 0"
    "map fst (file_meta (final_state (run sound_repository (validator_with no_rules)))) =
       [actor_path, relationship_path]"
    by (simp_all add: exit_status_def final_state_def report_def)
  with e n r s show ?thesis by simp
qed

text \<open>
  Claim C5. With a sound skeleton the later phases do not all run: a relationship
  without its source, with a rule set loaded, raises \<open>IndexError\<close> in
  \<open>check_relationships\<close>, and the run ends there. The diagram check, which would record
  the connection without its relationship, the smoke test and the report never run.
\<close>

theorem later_phases_cut_short:
  "structure_sound cut_short_repository \<and>
   errors (check_structure cut_short_repository (validator_with association_rules)) = [] \<and>
   uncaught (run cut_short_repository (validator_with association_rules)) =
     Some IndexError \<and>
   errors (final_state (run cut_short_repository (validator_with association_rules))) =
     [Relationship_missing_single_source relationship_path] \<and>
   Connection_missing_relationship first_diagram_path
     \<in> set (errors (state_of (check_diagrams cut_short_repository
                (final_state (run cut_short_repository
                   (validator_with association_rules))))))"
  by code_simp

subsection \<open>A relationship without one of its sides\<close>

text \<open>
  Claim C2. A relationship file without a source child: with a rule set loaded the run
  records the missing source and then raises \<open>IndexError\<close> at \<open>src_elems[0]\<close>; with no rule
  set loaded it records exactly the one error and returns.
\<close>

theorem missing_source_with_rules_raises:
  "uncaught (run (sourceless_repository (Document association_rules))
               (validator_with association_rules)) = Some IndexError \<and>
   errors (final_state (run (sourceless_repository (Document association_rules))
                          (validator_with association_rules))) =
     [Relationship_missing_single_source relationship_path] \<and>
   uncaught (run (sourceless_repository Absent) (validator_with no_rules)) = None \<and>
   errors (final_state (run (sourceless_repository Absent) (validator_with no_rules))) =
     [Relationship_missing_single_source relationship_path]"
  by code_simp

subsection \<open>Unreadable optional documents\<close>




lemma new_errors_add_diags [simp]: "new_errors v (add_diags es ws v) = es"
  by (simp add: new_errors_def)

lemma returns_Ok [simp]: "returns (Ok v)"
  by (simp add: returns_def)

lemma state_of_Ok [simp]: "state_of (Ok v) = v"
  by (simp add: state_of_def)








subsection \<open>Filenames and identifiers\<close>




lemma child_errors_kinds:
  "d \<in> set (child_errors v root conn p ch) \<Longrightarrow>
     d = Connection_missing_relationship_href p \<or> (\<exists>r s t. d = Connection_not_allowed r s t p)"
  by (auto simp: child_errors_def split: if_splits)

lemma child_errors_href:
  "(Connection_missing_relationship_href q \<in> set (child_errors v root conn p ch)) =
     (q = p \<and> is_rel_child ch \<and> \<not> truthy (attr ch ''href''))"
  by (auto simp: child_errors_def split: if_splits)

lemma connection_errors_source:
  "(Connection_source_not_found sid q \<in> set (connection_errors v root p conn)) =
     (q = p \<and> attr conn XSI_TYPE = Some ARCHIMATE_CONNECTION \<and> sid = attr conn ''source'' \<and>
      (\<not> truthy sid \<or> or_empty sid \<notin> diagram_ids root))"
  by (auto simp: connection_errors_def dest: child_errors_kinds split: if_splits)

lemma connection_errors_target:
  "(Connection_target_not_found tid q \<in> set (connection_errors v root p conn)) =
     (q = p \<and> attr conn XSI_TYPE = Some ARCHIMATE_CONNECTION \<and> tid = attr conn ''target'' \<and>
      (\<not> truthy tid \<or> or_empty tid \<notin> diagram_ids root))"
  by (auto simp: connection_errors_def dest: child_errors_kinds split: if_splits)

lemma connection_errors_missing:
  "(Connection_missing_relationship q \<in> set (connection_errors v root p conn)) =
     (q = p \<and> attr conn XSI_TYPE = Some ARCHIMATE_CONNECTION \<and>
      \<not> list_ex is_rel_child (kids conn))"
  by (auto simp: connection_errors_def dest: child_errors_kinds split: if_splits)

lemma connection_errors_href:
  "(Connection_missing_relationship_href q \<in> set (connection_errors v root p conn)) =
     (q = p \<and> attr conn XSI_TYPE = Some ARCHIMATE_CONNECTION \<and>
      (\<exists>ch \<in> set (kids conn). is_rel_child ch \<and> \<not> truthy (attr ch ''href'')))"
  by (auto simp: connection_errors_def child_errors_href split: if_splits)

lemma object_errors_kinds:
  "d \<in> set (object_errors p dmo) \<Longrightarrow>
     d = Object_missing_bounds p \<or> d = Object_missing_element_href p"
  by (auto simp: object_errors_def split: if_splits)

text \<open>What a diagram file contributes, for the four diagnostics of a connection.\<close>

lemma diagram_errors_member:
  assumes "\<And>p root. d \<notin> set (concat (map (object_errors p) (descendants root)))"
  shows "(d \<in> set (diagram_errors E v (p, root_local, rid))) =
         ((root_local = ''ArchimateDiagramModel'' \<or> root_local = ''SketchModel'') \<and>
          (\<exists>root. parse_xml E p = Inr root \<and>
             (\<exists>conn \<in> set (descendants root). d \<in> set (connection_errors v root p conn))))"
proof (cases "parse_xml E p")
  case (Inl e)
  then show ?thesis by (simp add: diagram_errors_def)
next
  case (Inr root)
  with assms show ?thesis by (auto simp: diagram_errors_def)
qed

lemma not_object_error:
  "(\<And>p. d \<noteq> Object_missing_bounds p) \<Longrightarrow> (\<And>p. d \<noteq> Object_missing_element_href p) \<Longrightarrow>
   d \<notin> set (concat (map (object_errors p) (descendants root)))"
  by (auto dest: object_errors_kinds)

lemma diagrams_member:
  assumes "\<And>p. d \<noteq> Object_missing_bounds p" and "\<And>p. d \<noteq> Object_missing_element_href p"
    and "\<And>q root_local rid root conn. d \<in> set (connection_errors v root q conn) \<Longrightarrow> q = p"
    and "(p, root_local, rid) \<in> set (file_meta v)"
    and "root_local = ''ArchimateDiagramModel'' \<or> root_local = ''SketchModel''"
    and "parse_xml E p = Inr root"
  shows "(d \<in> set (concat (map (diagram_errors E v) (file_meta v)))) =
         (\<exists>conn \<in> set (descendants root). d \<in> set (connection_errors v root p conn))"
proof
  assume "d \<in> set (concat (map (diagram_errors E v) (file_meta v)))"
  then obtain q rl ri where "(q, rl, ri) \<in> set (file_meta v)"
    and "d \<in> set (diagram_errors E v (q, rl, ri))"
    by auto
  then obtain root' conn where "parse_xml E q = Inr root'" "conn \<in> set (descendants root')"
    "d \<in> set (connection_errors v root' q conn)"
    using diagram_errors_member [of d E v q rl ri] not_object_error [OF assms(1,2)] by blast
  moreover from this assms(3) have "q = p" by blast
  ultimately show "\<exists>conn \<in> set (descendants root). d \<in> set (connection_errors v root p conn)"
    using assms(6) by auto
next
  assume "\<exists>conn \<in> set (descendants root). d \<in> set (connection_errors v root p conn)"
  then have "d \<in> set (diagram_errors E v (p, root_local, rid))"
    using diagram_errors_member [of d E v p root_local rid] not_object_error [OF assms(1,2)]
      assms(5,6) by blast
  with assms(4) show "d \<in> set (concat (map (diagram_errors E v) (file_meta v)))"
    by force
qed

lemma check_diagrams_eq:
  assumes "index_consistent E v" and "views (relation_rules v) d"
  shows "check_diagrams E v =
         Ok (add_diags (concat (map (diagram_errors E v) (file_meta v))) [] v)"
  using check_diagrams_add [OF assms, of "[]" "[]"] by simp

subsection \<open>Diagram connections\<close>

text \<open>
  Claim C7. For every connection of an indexed diagram file, with the rule document a
  rule set, \<open>check_diagrams\<close> returns and reports the source (the target) as not found exactly when the endpoint id is
  missing, empty or not in the id set collected from the diagram-object descendants of
  that same file's root; no other file enters the condition.
\<close>

theorem connection_endpoints_local:
  assumes "index_consistent E v" and "(p, root_local, rid) \<in> set (file_meta v)"
    and "root_local = ''ArchimateDiagramModel'' \<or> root_local = ''SketchModel''"
    and "parse_xml E p = Inr root" and "conn \<in> set (descendants root)"
    and "attr conn XSI_TYPE = Some ARCHIMATE_CONNECTION"
    and "views (relation_rules v) d"
  shows "returns (check_diagrams E v) \<and>
         ((Connection_source_not_found (attr conn ''source'') p
             \<in> set (new_errors v (state_of (check_diagrams E v)))) =
          (\<not> truthy (attr conn ''source'') \<or>
           or_empty (attr conn ''source'') \<notin> diagram_ids root)) \<and>
         ((Connection_target_not_found (attr conn ''target'') p
             \<in> set (new_errors v (state_of (check_diagrams E v)))) =
          (\<not> truthy (attr conn ''target'') \<or>
           or_empty (attr conn ''target'') \<notin> diagram_ids root))"
proof -
  note eq = check_diagrams_eq [OF assms(1) assms(7)]
  have s: "(Connection_source_not_found (attr conn ''source'') p
              \<in> set (concat (map (diagram_errors E v) (file_meta v)))) =
           (\<exists>c \<in> set (descendants root).
              Connection_source_not_found (attr conn ''source'') p
                \<in> set (connection_errors v root p c))"
    by (rule diagrams_member [OF _ _ _ assms(2,3,4)]) (simp_all add: connection_errors_source)
  have t: "(Connection_target_not_found (attr conn ''target'') p
              \<in> set (concat (map (diagram_errors E v) (file_meta v)))) =
           (\<exists>c \<in> set (descendants root).
              Connection_target_not_found (attr conn ''target'') p
                \<in> set (connection_errors v root p c))"
    by (rule diagrams_member [OF _ _ _ assms(2,3,4)]) (simp_all add: connection_errors_target)
  have r: "returns (check_diagrams E v)" by (simp add: eq)
  have n: "new_errors v (state_of (check_diagrams E v)) =
           concat (map (diagram_errors E v) (file_meta v))"
    by (simp add: eq)
  show ?thesis
    unfolding n s t using r assms(5,6)
    by (auto simp: connection_errors_source connection_errors_target)
qed

text \<open>
  Claim C8, as the code has it. For an indexed diagram file, with the rule document a
  rule set, \<open>check_diagrams\<close> returns, the missing-relationship error is recorded exactly when some connection of the file has no
  \<open>archimateRelationship\<close> child, and the missing-href error exactly when some such
  child of some connection has no href; how many such children a connection has beyond
  the first is not checked.
\<close>

theorem backing_relationship_at_least_one:
  assumes "index_consistent E v" and "(p, root_local, rid) \<in> set (file_meta v)"
    and "root_local = ''ArchimateDiagramModel'' \<or> root_local = ''SketchModel''"
    and "parse_xml E p = Inr root" and "views (relation_rules v) d"
  shows "returns (check_diagrams E v) \<and>
         ((Connection_missing_relationship p
             \<in> set (new_errors v (state_of (check_diagrams E v)))) =
          (\<exists>conn \<in> set (descendants root).
             attr conn XSI_TYPE = Some ARCHIMATE_CONNECTION \<and>
             \<not> list_ex is_rel_child (kids conn))) \<and>
         ((Connection_missing_relationship_href p
             \<in> set (new_errors v (state_of (check_diagrams E v)))) =
          (\<exists>conn \<in> set (descendants root).
             attr conn XSI_TYPE = Some ARCHIMATE_CONNECTION \<and>
             (\<exists>ch \<in> set (kids conn). is_rel_child ch \<and> \<not> truthy (attr ch ''href''))))"
proof -
  note eq = check_diagrams_eq [OF assms(1) assms(5)]
  have m: "(Connection_missing_relationship p
              \<in> set (concat (map (diagram_errors E v) (file_meta v)))) =
           (\<exists>c \<in> set (descendants root).
              Connection_missing_relationship p \<in> set (connection_errors v root p c))"
    by (rule diagrams_member [OF _ _ _ assms(2,3,4)]) (simp_all add: connection_errors_missing)
  have h: "(Connection_missing_relationship_href p
              \<in> set (concat (map (diagram_errors E v) (file_meta v)))) =
           (\<exists>c \<in> set (descendants root).
              Connection_missing_relationship_href p \<in> set (connection_errors v root p c))"
    by (rule diagrams_member [OF _ _ _ assms(2,3,4)]) (simp_all add: connection_errors_href)
  have r: "returns (check_diagrams E v)" by (simp add: eq)
  have n: "new_errors v (state_of (check_diagrams E v)) =
           concat (map (diagram_errors E v) (file_meta v))"
    by (simp add: eq)
  show ?thesis
    unfolding n m h using r
    by (simp add: connection_errors_missing connection_errors_href)
qed

theorem connection_endpoints_local_witness:
  "index_consistent two_diagram_repository
     (index_files two_diagram_repository (validator_with no_rules)) \<and>
   views (relation_rules (index_files two_diagram_repository (validator_with no_rules)))
     empty_rule_set \<and>
   ''id-o1'' \<in> diagram_ids first_diagram \<and>
   ''id-o1'' \<notin> diagram_ids second_diagram \<and>
   Connection_target_not_found (Some ''id-o1'') second_diagram_path
     \<in> set (new_errors (index_files two_diagram_repository (validator_with no_rules))
              (state_of (check_diagrams two_diagram_repository
                 (index_files two_diagram_repository (validator_with no_rules))))) \<and>
   Connection_source_not_found (Some ''id-o3'') second_diagram_path
     \<notin> set (new_errors (index_files two_diagram_repository (validator_with no_rules))
              (state_of (check_diagrams two_diagram_repository
                 (index_files two_diagram_repository (validator_with no_rules)))))"
proof -
  let ?E = two_diagram_repository
  let ?V = "index_files two_diagram_repository (validator_with no_rules)"
  let ?c = "connection ''id-o3'' ''id-o1'' [backing_relationship]"
  have ic: "index_consistent ?E ?V"
    by (rule index_files_consistent) (simp_all add: validator_with_def)
  have m: "(second_diagram_path, ''ArchimateDiagramModel'', ''id-d2'') \<in> set (file_meta ?V)"
    by code_simp
  have k: "''ArchimateDiagramModel'' = ''ArchimateDiagramModel'' \<or>
           ''ArchimateDiagramModel'' = ''SketchModel''" by simp
  have px: "parse_xml ?E second_diagram_path = Inr second_diagram" by code_simp
  have cn: "?c \<in> set (descendants second_diagram)" by code_simp
  have ty: "attr ?c XSI_TYPE = Some ARCHIMATE_CONNECTION" by code_simp
  have a: "attr ?c ''source'' = Some ''id-o3''" "attr ?c ''target'' = Some ''id-o1''"
    by code_simp+
  have i: "''id-o1'' \<in> diagram_ids first_diagram" "''id-o1'' \<notin> diagram_ids second_diagram"
    "''id-o3'' \<in> diagram_ids second_diagram"
    by code_simp+
  have vw: "views (relation_rules ?V) empty_rule_set"
    by (simp add: index_files_rules validator_with_def no_rules_def views_def
          empty_rule_set_def loaded_def)
  from connection_endpoints_local [OF ic m k px cn ty vw] a i
  show ?thesis using ic vw by (simp add: truthy_def or_empty_def)
qed

theorem backing_relationship_at_least_one_witness:
  "index_consistent doubly_backed_repository
     (index_files doubly_backed_repository (validator_with no_rules)) \<and>
   views (relation_rules (index_files doubly_backed_repository (validator_with no_rules)))
     empty_rule_set \<and>
   Connection_missing_relationship first_diagram_path
     \<notin> set (new_errors (index_files doubly_backed_repository (validator_with no_rules))
              (state_of (check_diagrams doubly_backed_repository
                 (index_files doubly_backed_repository (validator_with no_rules))))) \<and>
   index_consistent unbacked_repository
     (index_files unbacked_repository (validator_with no_rules)) \<and>
   views (relation_rules (index_files unbacked_repository (validator_with no_rules)))
     empty_rule_set \<and>
   Connection_missing_relationship first_diagram_path
     \<in> set (new_errors (index_files unbacked_repository (validator_with no_rules))
              (state_of (check_diagrams unbacked_repository
                 (index_files unbacked_repository (validator_with no_rules)))))"
proof -
  let ?E = doubly_backed_repository
  let ?V = "index_files doubly_backed_repository (validator_with no_rules)"
  let ?F = unbacked_repository
  let ?W = "index_files unbacked_repository (validator_with no_rules)"
  have k: "''ArchimateDiagramModel'' = ''ArchimateDiagramModel'' \<or>
           ''ArchimateDiagramModel'' = ''SketchModel''" by simp
  have ic: "index_consistent ?E ?V"
    by (rule index_files_consistent) (simp_all add: validator_with_def)
  have m: "(first_diagram_path, ''ArchimateDiagramModel'', ''id-d1'') \<in> set (file_meta ?V)"
    by code_simp
  have px: "parse_xml ?E first_diagram_path = Inr doubly_backed_diagram" by code_simp
  have no: "\<not> (\<exists>conn \<in> set (descendants doubly_backed_diagram).
               attr conn XSI_TYPE = Some ARCHIMATE_CONNECTION \<and>
               \<not> list_ex is_rel_child (kids conn))"
    by code_simp
  have ic': "index_consistent ?F ?W"
    by (rule index_files_consistent) (simp_all add: validator_with_def)
  have m': "(first_diagram_path, ''ArchimateDiagramModel'', ''id-d1'') \<in> set (file_meta ?W)"
    by code_simp
  have px': "parse_xml ?F first_diagram_path =
     Inr (diagram ''id-d1'' [diagram_object ''id-o1'', diagram_object ''id-o2'',
                             connection ''id-o1'' ''id-o2'' []])"
    by code_simp
  have yes: "\<exists>conn \<in> set (descendants (diagram ''id-d1'' [diagram_object ''id-o1'',
                 diagram_object ''id-o2'', connection ''id-o1'' ''id-o2'' []])).
               attr conn XSI_TYPE = Some ARCHIMATE_CONNECTION \<and>
               \<not> list_ex is_rel_child (kids conn)"
    by code_simp
  have vw: "views (relation_rules ?V) empty_rule_set"
    and vw': "views (relation_rules ?W) empty_rule_set"
    by (simp_all add: index_files_rules validator_with_def no_rules_def views_def
          empty_rule_set_def loaded_def)
  from backing_relationship_at_least_one [OF ic m k px vw] no
       backing_relationship_at_least_one [OF ic' m' k px' vw'] yes
  show ?thesis using ic ic' vw vw' by simp
qed

text \<open>
  The claim as stated fails: a connection with two references to its relationship, each
  with an href, passes with no error.
\<close>

theorem two_backing_relationships_accepted:
  "length (filter is_rel_child
     (kids (connection ''id-o1'' ''id-o2'' [backing_relationship, backing_relationship]))) = 2 \<and>
   connection ''id-o1'' ''id-o2'' [backing_relationship, backing_relationship]
     \<in> set (descendants doubly_backed_diagram) \<and>
   errors (final_state (run doubly_backed_repository (validator_with no_rules))) = [] \<and>
   exit_status (run doubly_backed_repository (validator_with no_rules)) = 0"
  by code_simp

lemma resolve_href_cases:
  "resolve_href v href =
     (case HREF_RE href of
        None \<Rightarrow> (None, None)
      | Some (fname, frag) \<Rightarrow> (map_of (basename_to_path v) fname, Some frag))"
  by (simp add: resolve_href_def)

lemma href_errors_invalid:
  "(Invalid_href h q \<in> set (href_errors E v p href)) =
     (q = p \<and> h = href \<and>
      (case HREF_RE href of
         None \<Rightarrow> True
       | Some (fname, frag) \<Rightarrow> map_of (basename_to_path v) fname = None))"
  by (auto simp: href_errors_def resolve_href_def split: option.splits sum.splits if_splits)

lemma href_errors_mismatch:
  "(Href_id_does_not_match f t h q \<in> set (href_errors E v p href)) =
     (q = p \<and> h = href \<and> f \<noteq> t \<and>
      (\<exists>fname tgt tl. HREF_RE href = Some (fname, f) \<and>
         map_of (basename_to_path v) fname = Some tgt \<and> map_of (file_meta v) tgt = Some (tl, t)))"
  by (auto simp: href_errors_def resolve_href_def split: option.splits sum.splits if_splits)

lemma href_errors_parse:
  "(Failed_to_parse_target h m \<in> set (href_errors E v p href)) =
     (h = href \<and>
      (\<exists>fname frag tgt. HREF_RE href = Some (fname, frag) \<and>
         map_of (basename_to_path v) fname = Some tgt \<and> map_of (file_meta v) tgt = None \<and>
         parse_xml E tgt = Inl m))"
  by (auto simp: href_errors_def resolve_href_def split: option.splits sum.splits if_splits)

lemma elem_href_errors_member:
  "(d \<in> set (elem_href_errors E v p e)) =
     (\<exists>href. attr e ''href'' = Some href \<and> d \<in> set (href_errors E v p href))"
  by (cases "attr e ''href''") (simp_all add: elem_href_errors_def)

lemma hrefs_member:
  "(d \<in> set (concat (map (file_href_errors E v) (map fst (file_meta v))))) =
     (\<exists>p \<in> fst ` set (file_meta v). \<exists>root. parse_xml E p = Inr root \<and>
        (\<exists>e \<in> set (iter root). \<exists>href. attr e ''href'' = Some href \<and>
           d \<in> set (href_errors E v p href)))"
proof -
  have f: "(d \<in> set (file_href_errors E v p)) =
           (\<exists>root. parse_xml E p = Inr root \<and>
              (\<exists>e \<in> set (iter root). \<exists>href. attr e ''href'' = Some href \<and>
                 d \<in> set (href_errors E v p href)))" for p
  proof (cases "parse_xml E p")
    case (Inl e)
    then show ?thesis by (simp add: file_href_errors_def)
  next
    case (Inr root)
    then show ?thesis
      by (auto simp: file_href_errors_def elem_href_errors_member)
  qed
  show ?thesis by (simp add: f)
qed

lemma check_hrefs_eq':
  assumes "index_consistent E v"
  shows "returns (check_hrefs E v)"
    and "new_errors v (state_of (check_hrefs E v)) =
         concat (map (file_href_errors E v) (map fst (file_meta v)))"
  using check_hrefs_eq [OF assms] by simp_all

lemma href_at_shape:
  assumes "href_at i h = Some r"
  shows "i < length h \<and> 0 < i \<and> CHR ''/'' \<notin> set (take i h) \<and>
         take 5 (drop i h) = ''.xml#'' \<and> drop (i + 5) h \<noteq> []"
proof -
  from assms have i: "0 < i" and s: "CHR ''/'' \<notin> set (take i h)"
    and x: "take 5 (drop i h) = ''.xml#''" and d: "dot_plus_end (drop (i + 5) h) \<noteq> None"
    by (auto simp: href_at_def split: if_splits)
  from x have "drop i h \<noteq> []" by auto
  then have "i < length h" by simp
  moreover from d have "drop (i + 5) h \<noteq> []"
    by (auto simp: dot_plus_end_def chop_newline_def Let_def)
  ultimately show ?thesis using i s x by simp
qed

lemma href_from_at: "href_from n h = Some r \<Longrightarrow> \<exists>i. href_at i h = Some r"
  by (induction n) (auto split: option.splits)

lemma HREF_RE_shape: "HREF_RE h = Some r \<Longrightarrow> href_shape h"
proof -
  assume "HREF_RE h = Some r"
  then obtain i where "href_at i h = Some r"
    unfolding HREF_RE_def using href_from_at by blast
  from href_at_shape [OF this] show ?thesis
    unfolding href_shape_def list_ex_iff by (intro bexI [of _ i]) simp_all
qed

subsection \<open>References\<close>

text \<open>
  What \<open>check_hrefs\<close> does with an href attribute on any element of an indexed file,
  with filename and fragment the two groups of the pattern's match: it returns; a value
  that has not the shape of a single path segment, \<open>.xml#\<close> and a non-empty fragment is
  recorded as invalid; a value is recorded as invalid exactly when the pattern does not
  match or its filename is not in the filename index; and for a value whose filename
  resolves to an indexed target the mismatch error is recorded exactly when the second
  group differs from the target's root identifier.
\<close>

theorem href_checking:
  assumes "index_consistent E v" and "p \<in> fst ` set (file_meta v)"
    and "parse_xml E p = Inr root" and "e \<in> set (iter root)" and "attr e ''href'' = Some href"
  shows "returns (check_hrefs E v) \<and>
         (\<not> href_shape href \<longrightarrow>
            Invalid_href href p \<in> set (new_errors v (state_of (check_hrefs E v)))) \<and>
         ((Invalid_href href p \<in> set (new_errors v (state_of (check_hrefs E v)))) =
            (case HREF_RE href of
               None \<Rightarrow> True
             | Some (fname, frag) \<Rightarrow> map_of (basename_to_path v) fname = None)) \<and>
         (\<forall>fname frag tgt troot_local trid.
            HREF_RE href = Some (fname, frag) \<and>
            map_of (basename_to_path v) fname = Some tgt \<and>
            map_of (file_meta v) tgt = Some (troot_local, trid) \<longrightarrow>
            ((Href_id_does_not_match frag trid href p
                \<in> set (new_errors v (state_of (check_hrefs E v)))) = (frag \<noteq> trid)))"
proof -
  note n = check_hrefs_eq'(2) [OF assms(1)]
  have i: "(Invalid_href href p \<in> set (new_errors v (state_of (check_hrefs E v)))) =
           (case HREF_RE href of
              None \<Rightarrow> True
            | Some (fname, frag) \<Rightarrow> map_of (basename_to_path v) fname = None)"
    unfolding n hrefs_member href_errors_invalid using assms(2-5) by auto
  have s: "\<not> href_shape href \<Longrightarrow> HREF_RE href = None"
    using HREF_RE_shape by (cases "HREF_RE href") auto
  have m: "(Href_id_does_not_match frag trid href p
              \<in> set (new_errors v (state_of (check_hrefs E v)))) = (frag \<noteq> trid)"
    if "HREF_RE href = Some (fname, frag)" "map_of (basename_to_path v) fname = Some tgt"
       "map_of (file_meta v) tgt = Some (troot_local, trid)"
    for fname frag tgt troot_local trid
    unfolding n hrefs_member href_errors_mismatch using assms(2-5) that by auto
  from check_hrefs_eq'(1) [OF assms(1)] i s m show ?thesis by auto
qed

theorem href_checking_witness:
  "index_consistent references_repository indexed_references \<and>
   \<not> href_shape ''Business/BusinessActor_id-a1.xml#id-a1'' \<and>
   Invalid_href ''Business/BusinessActor_id-a1.xml#id-a1'' referring_path
     \<in> set (new_errors indexed_references
              (state_of (check_hrefs references_repository indexed_references))) \<and>
   Invalid_href ''BusinessActor_id-zz.xml#id-zz'' referring_path
     \<in> set (new_errors indexed_references
              (state_of (check_hrefs references_repository indexed_references))) \<and>
   Href_id_does_not_match ''id-wrong'' ''id-a1'' ''BusinessActor_id-a1.xml#id-wrong'' referring_path
     \<in> set (new_errors indexed_references
              (state_of (check_hrefs references_repository indexed_references))) \<and>
   Href_id_does_not_match ''id-a1'' ''id-a1'' ''BusinessActor_id-a1.xml#id-a1'' referring_path
     \<notin> set (new_errors indexed_references
              (state_of (check_hrefs references_repository indexed_references)))"
proof -
  let ?E = references_repository
  let ?V = indexed_references
  have ic: "index_consistent ?E ?V"
    unfolding indexed_references_def
    by (rule index_files_consistent) (simp_all add: validator_with_def)
  have pm: "referring_path \<in> fst ` set (file_meta ?V)" by code_simp
  have px: "parse_xml ?E referring_path = Inr referring_root" by code_simp
  note hc = href_checking [OF ic pm px]
  have e1: "reference ''Business/BusinessActor_id-a1.xml#id-a1'' \<in> set (iter referring_root)"
    and e2: "reference ''BusinessActor_id-zz.xml#id-zz'' \<in> set (iter referring_root)"
    and e3: "reference ''BusinessActor_id-a1.xml#id-wrong'' \<in> set (iter referring_root)"
    and e4: "reference ''BusinessActor_id-a1.xml#id-a1'' \<in> set (iter referring_root)"
    by code_simp+
  have a: "\<And>h. attr (reference h) ''href'' = Some h"
    by (simp add: reference_def attr_def)
  have s1: "\<not> href_shape ''Business/BusinessActor_id-a1.xml#id-a1''" by code_simp
  have r2: "HREF_RE ''BusinessActor_id-zz.xml#id-zz'' = Some (''BusinessActor_id-zz.xml'', ''id-zz'')"
    and r3: "HREF_RE ''BusinessActor_id-a1.xml#id-wrong'' =
               Some (''BusinessActor_id-a1.xml'', ''id-wrong'')"
    and r4: "HREF_RE ''BusinessActor_id-a1.xml#id-a1'' = Some (''BusinessActor_id-a1.xml'', ''id-a1'')"
    by code_simp+
  have b2: "map_of (basename_to_path ?V) ''BusinessActor_id-zz.xml'' = None"
    and b3: "map_of (basename_to_path ?V) ''BusinessActor_id-a1.xml'' = Some actor_path"
    and m3: "map_of (file_meta ?V) actor_path = Some (''BusinessActor'', ''id-a1'')"
    by code_simp+
  from hc [OF e1 a] s1
  have c1: "Invalid_href ''Business/BusinessActor_id-a1.xml#id-a1'' referring_path
              \<in> set (new_errors ?V (state_of (check_hrefs ?E ?V)))" by blast
  from hc [OF e2 a] r2 b2
  have c2: "Invalid_href ''BusinessActor_id-zz.xml#id-zz'' referring_path
              \<in> set (new_errors ?V (state_of (check_hrefs ?E ?V)))" by simp
  from hc [OF e3 a] r3 b3 m3
  have c3: "Href_id_does_not_match ''id-wrong'' ''id-a1'' ''BusinessActor_id-a1.xml#id-wrong''
              referring_path \<in> set (new_errors ?V (state_of (check_hrefs ?E ?V)))" by simp
  from hc [OF e4 a] r4 b3 m3
  have c4: "Href_id_does_not_match ''id-a1'' ''id-a1'' ''BusinessActor_id-a1.xml#id-a1''
              referring_path \<notin> set (new_errors ?V (state_of (check_hrefs ?E ?V)))" by simp
  from ic s1 c1 c2 c3 c4 show ?thesis by simp
qed

text \<open>
  The two groups against the value: the value is the filename, \<open>#\<close> and the second
  group, or these followed by one newline, which \<open>$\<close> leaves out of the group.
\<close>

lemma chop_newline_cases: "s = chop_newline s \<or> s = chop_newline s @ [newline]"
proof (cases "s \<noteq> [] \<and> last s = newline")
  case True
  then have "butlast s @ [newline] = s" using append_butlast_last_id [of s] by simp
  with True show ?thesis by (simp add: chop_newline_def)
next
  case False
  then show ?thesis by (auto simp: chop_newline_def)
qed

lemma href_at_groups:
  assumes "href_at i h = Some (fname, frag)"
  shows "h = fname @ ''#'' @ frag \<or> h = fname @ ''#'' @ frag @ [newline]"
proof -
  from assms have x: "take 5 (drop i h) = ''.xml#''"
    and f: "fname = take (i + 4) h" and g: "dot_plus_end (drop (i + 5) h) = Some frag"
    by (auto simp: href_at_def split: if_splits)
  from g have c: "chop_newline (drop (i + 5) h) = frag"
    by (auto simp: dot_plus_end_def Let_def split: if_splits)
  from x have "take 1 (drop 4 (take 5 (drop i h))) = ''#''" by simp
  then have "take 1 (drop (i + 4) h) = ''#''"
    by (simp add: drop_take add.commute)
  then have "drop (i + 4) h = ''#'' @ drop 1 (drop (i + 4) h)"
    using append_take_drop_id [of 1 "drop (i + 4) h"] by simp
  then have h: "h = fname @ ''#'' @ drop (i + 5) h"
    using append_take_drop_id [of "i + 4" h] f by (simp add: add.commute)
  from chop_newline_cases [of "drop (i + 5) h"] c h show ?thesis by auto
qed

lemma HREF_RE_groups:
  "HREF_RE h = Some (fname, frag) \<Longrightarrow>
   h = fname @ ''#'' @ frag \<or> h = fname @ ''#'' @ frag @ [newline]"
  unfolding HREF_RE_def using href_from_at href_at_groups by blast

text \<open>
  Claim C4. A reference to an indexed file whose fragment is the target's identifier
  followed by a newline: the fragment differs from the target's root identifier, the
  pattern's second group leaves the newline out, and no error is recorded.
\<close>

theorem final_newline_fragment_accepted:
  "newline_reference = ''BusinessActor_id-a1.xml'' @ ''#'' @ (''id-a1'' @ [newline]) \<and>
   ''id-a1'' @ [newline] \<noteq> ''id-a1'' \<and>
   HREF_RE newline_reference = Some (''BusinessActor_id-a1.xml'', ''id-a1'') \<and>
   map_of (file_meta (final_state (run newline_repository (validator_with no_rules))))
     actor_path = Some (''BusinessActor'', ''id-a1'') \<and>
   errors (final_state (run newline_repository (validator_with no_rules))) = [] \<and>
   exit_status (run newline_repository (validator_with no_rules)) = 0"
  by code_simp

lemma basename_to_path_index_file:
  "basename_to_path (index_file E p v) =
     (if name p = ''folder.xml'' then basename_to_path v
      else AList.update (name p) p (basename_to_path v))"
  by (cases "parse_xml E p") (simp_all add: index_file_def Let_def fail_def)

lemma basename_to_path_fold_index_file:
  assumes "\<forall>q' \<in> set ps. name q' = name q \<longrightarrow> q' = q" and "name q \<noteq> ''folder.xml''"
  shows "map_of (basename_to_path (fold (index_file E) ps v)) (name q) =
         (if q \<in> set ps then Some q else map_of (basename_to_path v) (name q))"
  using assms(1)
proof (induction ps arbitrary: v)
  case Nil
  then show ?case by simp
next
  case (Cons p ps)
  then have ih: "map_of (basename_to_path (fold (index_file E) ps (index_file E p v))) (name q) =
      (if q \<in> set ps then Some q else map_of (basename_to_path (index_file E p v)) (name q))"
    by simp
  show ?case
  proof (cases "p = q")
    case True
    with ih assms(2) show ?thesis
      by (simp add: basename_to_path_index_file update_conv')
  next
    case False
    with Cons.prems have "name p \<noteq> name q" by auto
    with ih False show ?thesis
      by (simp add: basename_to_path_index_file update_conv')
  qed
qed

text \<open>
  Claim C10. A file that fails to parse during indexing, the only one of its name, is in
  the filename index and not in the metadata index when \<open>run\<close> calls \<open>check_hrefs\<close>;
  for every reference whose filename names it, \<open>check_hrefs\<close> returns, takes the
  on-demand parse, which fails again, and records the failed-to-parse-target error, not
  the invalid-href error.
\<close>

theorem unparsable_file_reference:
  assumes "basename_to_path v0 = []" and "file_meta v0 = []"
    and "q \<in> set (rglob E)" and "name q \<noteq> ''folder.xml''" and "parse_xml E q = Inl msg"
    and "\<forall>q' \<in> set (rglob E). name q' = name q \<longrightarrow> q' = q"
    and "v = check_files_and_ids E (index_files E v0)"
    and "p \<in> fst ` set (file_meta v)" and "parse_xml E p = Inr root"
    and "e \<in> set (iter root)" and "attr e ''href'' = Some href"
    and "HREF_RE href = Some (name q, frag)"
  shows "map_of (basename_to_path v) (name q) = Some q \<and>
         q \<notin> fst ` set (file_meta v) \<and>
         returns (check_hrefs E v) \<and>
         Failed_to_parse_target href msg \<in> set (new_errors v (state_of (check_hrefs E v))) \<and>
         Invalid_href href p \<notin> set (new_errors v (state_of (check_hrefs E v)))"
proof -
  have vi: "basename_to_path v = basename_to_path (index_files E v0)"
           "file_meta v = file_meta (index_files E v0)"
    by (simp_all add: assms(7) check_files_and_ids_eq)
  have ic: "index_consistent E v"
    using index_files_consistent [OF assms(1,2), of E]
    by (simp add: assms(7) check_files_and_ids_eq)
  have b: "map_of (basename_to_path v) (name q) = Some q"
    unfolding vi index_files_def
    using basename_to_path_fold_index_file [OF assms(6,4), of E v0] assms(3) by simp
  then have "(name q, q) \<in> set (basename_to_path v)" by (rule map_of_SomeD)
  moreover from assms(5) have "\<not> parses E q" by (simp add: parses_def)
  ultimately have k: "q \<notin> fst ` set (file_meta v)"
    using ic by (auto simp: index_consistent_def)
  then have mn: "map_of (file_meta v) q = None" by (simp add: map_of_eq_None_iff)
  note n = check_hrefs_eq'(2) [OF ic]
  have f: "Failed_to_parse_target href msg \<in> set (new_errors v (state_of (check_hrefs E v)))"
    unfolding n hrefs_member href_errors_parse
    using assms(8-12) assms(5) b mn by blast
  have i: "Invalid_href href p \<notin> set (new_errors v (state_of (check_hrefs E v)))"
    unfolding n hrefs_member href_errors_invalid
    using assms(12) b by auto
  from b k check_hrefs_eq'(1) [OF ic] f i show ?thesis by simp
qed

theorem unparsable_file_reference_witness:
  "broken_path \<in> set (rglob references_repository) \<and>
   parse_xml references_repository broken_path =
     Inl ''XML parse error in model/Business/BusinessObject_id-x1.xml: no element found'' \<and>
   map_of (basename_to_path (check_files_and_ids references_repository indexed_references))
     ''BusinessObject_id-x1.xml'' = Some broken_path \<and>
   broken_path
     \<notin> fst ` set (file_meta (check_files_and_ids references_repository indexed_references)) \<and>
   Failed_to_parse_target ''BusinessObject_id-x1.xml#id-x1''
       ''XML parse error in model/Business/BusinessObject_id-x1.xml: no element found''
     \<in> set (new_errors (check_files_and_ids references_repository indexed_references)
              (state_of (check_hrefs references_repository
                 (check_files_and_ids references_repository indexed_references)))) \<and>
   Invalid_href ''BusinessObject_id-x1.xml#id-x1'' referring_path
     \<notin> set (new_errors (check_files_and_ids references_repository indexed_references)
              (state_of (check_hrefs references_repository
                 (check_files_and_ids references_repository indexed_references))))"
proof -
  let ?E = references_repository
  let ?init = "validator_with no_rules"
  let ?v = "check_files_and_ids references_repository indexed_references"
  let ?msg = "''XML parse error in model/Business/BusinessObject_id-x1.xml: no element found''"
  have f: "basename_to_path ?init = []" "file_meta ?init = []"
    by (simp_all add: validator_with_def)
  have q: "broken_path \<in> set (rglob ?E)" by code_simp
  have nq: "name broken_path \<noteq> ''folder.xml''" by code_simp
  have nm: "name broken_path = ''BusinessObject_id-x1.xml''" by code_simp
  have pq: "parse_xml ?E broken_path = Inl ?msg" by code_simp
  have u: "\<forall>q' \<in> set (rglob ?E). name q' = name broken_path \<longrightarrow> q' = broken_path"
    by code_simp
  have v: "?v = check_files_and_ids ?E (index_files ?E ?init)"
    by (simp add: indexed_references_def)
  have pm: "referring_path \<in> fst ` set (file_meta ?v)" by code_simp
  have px: "parse_xml ?E referring_path = Inr referring_root" by code_simp
  have e: "reference ''BusinessObject_id-x1.xml#id-x1'' \<in> set (iter referring_root)"
    by code_simp
  have a: "attr (reference ''BusinessObject_id-x1.xml#id-x1'') ''href'' =
             Some ''BusinessObject_id-x1.xml#id-x1''"
    by (simp add: reference_def attr_def)
  have r: "HREF_RE ''BusinessObject_id-x1.xml#id-x1'' = Some (name broken_path, ''id-x1'')"
    by code_simp
  from unparsable_file_reference [OF f q nq pq u v pm px e a r] q pq nm
  show ?thesis by simp
qed

end
